theory Spec2Isabelle
  imports Main "HOL-Library.Word"
begin

section \<open>ESP32 WiFi diagnostic access point: a model of \<open>src/main.cpp\<close>\<close>

text \<open>
  The firmware is one translation unit: a global disconnect counter written by the WiFi
  event callback, and request handlers that a polling loop runs to completion, one request
  at a time. The callback and the handlers for status, scan, ping, download and clients are
  modelled here as functions of the request, of the platform's answers and of the counter.
  The download handler's send loop, which may spin forever, is a partial function with
  \<open>None\<close> for a run that never returns.

  Machine types follow the ESP32 (ILP32): \<open>size_t\<close>, \<open>uint32_t\<close> and \<open>unsigned long\<close> are
  32-bit words, \<open>long\<close> is a 32-bit word read in two's complement by \<open>sint\<close>.
\<close>

type_synonym size_t = "32 word"
type_synonym uint32_t = "32 word"
type_synonym uint8_t = "8 word"
type_synonym long = "32 word"

subsection \<open>Requests and responses\<close>

text \<open>
  The query arguments of a request, in the order received. \<open>WebServer::hasArg\<close> looks for
  a name, \<open>WebServer::arg\<close> gives the value of the first argument of that name and the
  empty string when there is none.
\<close>

record http_request =
  args :: "(string \<times> string) list"

definition hasArg :: "http_request \<Rightarrow> string \<Rightarrow> bool" where
  "hasArg req name = (map_of (args req) name \<noteq> None)"

definition arg :: "http_request \<Rightarrow> string \<Rightarrow> string" where
  "arg req name = (case map_of (args req) name of Some v \<Rightarrow> v | None \<Rightarrow> [])"

text \<open>What \<open>server.send(code, content_type, content)\<close> puts on the connection.\<close>

record http_response =
  code :: nat
  content_type :: string
  content :: string

subsection \<open>Download throughput test: \<open>handleDownload\<close>\<close>

text \<open>
  The client is the environment of the send loop. Each pass of the loop polls it once:
  \<open>connected\<close> is what \<open>client.connected()\<close> answers on that pass and \<open>accepts\<close> is the
  number of bytes the transmit buffer has room for when \<open>client.write\<close> is called. A client
  is a script of polls indexed by the pass number, so that it may go on forever.
\<close>

record client_poll =
  connected :: bool
  accepts :: nat

type_synonym WiFiClient = "nat \<Rightarrow> client_poll"

text \<open>
  \<open>client.write(buf, toSend)\<close> hands over the first bytes of the buffer, as many as the
  transmit buffer takes and never more than \<open>toSend\<close>, and returns their number.
\<close>

definition client_write :: "client_poll \<Rightarrow> size_t \<Rightarrow> size_t" where
  "client_write p toSend = of_nat (min (accepts p) (unat toSend))"

text \<open>\<open>uint8_t buf[4096]; memset(buf, 0xAA, sizeof(buf));\<close>\<close>

definition buf :: "uint8_t list" where
  "buf = replicate 4096 0xAA"

text \<open>
  The loop's variables: \<open>sent\<close> as in the source; \<open>wire\<close>, the chunks that reached the
  connection, oldest first; \<open>delays\<close>, the number of \<open>delay(1)\<close> calls made; \<open>polls\<close>, the
  number of passes begun, which is the position in the client's script.
\<close>

record dl_state =
  sent :: size_t
  wire :: "uint8_t list list"
  delays :: nat
  polls :: nat

definition dl_init :: dl_state where
  "dl_init = \<lparr>sent = 0, wire = [], delays = 0, polls = 0\<rparr>"

text \<open>\<open>size_t toSend = (size - sent) > sizeof(buf) ? sizeof(buf) : (size - sent);\<close>\<close>

definition toSend :: "size_t \<Rightarrow> size_t \<Rightarrow> size_t" where
  "toSend size' sent' = (if size' - sent' > 4096 then 4096 else size' - sent')"

text \<open>\<open>while (sent < size && client.connected())\<close>\<close>

definition loop_cond :: "WiFiClient \<Rightarrow> size_t \<Rightarrow> dl_state \<Rightarrow> bool" where
  "loop_cond client size' st = (sent st < size' \<and> connected (client (polls st)))"

definition loop_body :: "WiFiClient \<Rightarrow> size_t \<Rightarrow> dl_state \<Rightarrow> dl_state" where
  "loop_body client size' st =
     (let written = client_write (client (polls st)) (toSend size' (sent st))
      in if written > 0
         then st\<lparr>sent := sent st + written,
                 wire := wire st @ [take (unat written) buf],
                 polls := Suc (polls st)\<rparr>
         else st\<lparr>delays := Suc (delays st), polls := Suc (polls st)\<rparr>)"

partial_function (option) send_loop :: "WiFiClient \<Rightarrow> size_t \<Rightarrow> dl_state \<Rightarrow> dl_state option" where
  "send_loop client size' st =
     (if loop_cond client size' st then send_loop client size' (loop_body client size' st)
      else Some st)"

declare send_loop.simps [code]

text \<open>
  The state after at most \<open>n\<close> passes of the same loop: every state the loop goes through is
  \<open>loop_run client size n dl_init\<close> for some \<open>n\<close>.
\<close>

primrec loop_run :: "WiFiClient \<Rightarrow> size_t \<Rightarrow> nat \<Rightarrow> dl_state \<Rightarrow> dl_state" where
  "loop_run client size' 0 st = st"
| "loop_run client size' (Suc n) st =
     (if loop_cond client size' st then loop_run client size' n (loop_body client size' st)
      else st)"

text \<open>
  \<open>size_t size = 1024 * 1024; if (server.hasArg("size")) size = server.arg("size").toInt();\<close>
  \<open>String::toInt\<close> belongs to the Arduino core, not to this program: it is the parameter
  \<open>toInt\<close>, returning a \<open>long\<close> that the assignment converts to \<open>size_t\<close> bit for bit.
\<close>

definition download_size :: "(string \<Rightarrow> long) \<Rightarrow> http_request \<Rightarrow> size_t" where
  "download_size toInt req =
     (if hasArg req ''size'' then toInt (arg req ''size'') else 1024 * 1024)"

text \<open>
  What a download request produces once the handler returns: the response head sent before
  the loop, the length given to \<open>setContentLength\<close>, and the loop's final state.
\<close>

record download_result =
  head :: http_response
  content_length :: size_t
  final :: dl_state

definition handleDownload :: "(string \<Rightarrow> long) \<Rightarrow> http_request \<Rightarrow> WiFiClient \<Rightarrow> download_result option" where
  "handleDownload toInt req client =
     (let size' = download_size toInt req
      in map_option
           (\<lambda>st. \<lparr>head = \<lparr>code = 200, content_type = ''application/octet-stream'', content = []\<rparr>,
                  content_length = size',
                  final = st\<rparr>)
           (send_loop client size' dl_init))"

text \<open>
  \<open>String::toInt\<close> is the C library's \<open>atol\<close> on the text: white space is skipped (the six
  \<open>isspace\<close> characters: space, tab, line feed, vertical tab, form feed, carriage return), one
  sign is read, then decimal digits up to the first other character; no digit gives 0. A
  value beyond the range of \<open>long\<close> gives \<open>LONG_MAX\<close> or \<open>LONG_MIN\<close>, as the library's
  \<open>strtol\<close> does. It supplies \<open>toInt\<close> in concrete runs.
\<close>

definition isspace :: "char \<Rightarrow> bool" where
  "isspace c = ((of_char c :: nat) = 32 \<or> (9 \<le> (of_char c :: nat) \<and> (of_char c :: nat) \<le> 13))"

definition is_digit :: "char \<Rightarrow> bool" where
  "is_digit c = (48 \<le> (of_char c :: nat) \<and> (of_char c :: nat) \<le> 57)"

definition digit_val :: "char \<Rightarrow> int" where
  "digit_val c = int (of_char c) - 48"

fun atol_digits :: "int \<Rightarrow> string \<Rightarrow> int" where
  "atol_digits acc [] = acc"
| "atol_digits acc (c # cs) =
     (if is_digit c then atol_digits (10 * acc + digit_val c) cs else acc)"

fun atol_sign :: "string \<Rightarrow> int" where
  "atol_sign [] = 0"
| "atol_sign (c # cs) =
     (if c = CHR ''-'' then - atol_digits 0 cs
      else if c = CHR ''+'' then atol_digits 0 cs
      else atol_digits 0 (c # cs))"

definition LONG_MAX :: int where
  "LONG_MAX = 2 ^ 31 - 1"

definition LONG_MIN :: int where
  "LONG_MIN = - (2 ^ 31)"

definition atol :: "string \<Rightarrow> long" where
  "atol s = word_of_int (max LONG_MIN (min LONG_MAX (atol_sign (dropWhile isspace s))))"

text \<open>A client that stays connected and takes every chunk whole.\<close>

definition cooperative :: "WiFiClient \<Rightarrow> bool" where
  "cooperative client = (\<forall>k. connected (client k) \<and> 4096 \<le> accepts (client k))"

definition eager_client :: WiFiClient where
  "eager_client = (\<lambda>k. \<lparr>connected = True, accepts = 4096\<rparr>)"

text \<open>Behaviours of a client over a whole transfer, as the claims about the loop name them.\<close>

definition stays_connected :: "WiFiClient \<Rightarrow> bool" where
  "stays_connected client = (\<forall>k. connected (client k))"

definition makes_progress :: "WiFiClient \<Rightarrow> bool" where
  "makes_progress client = (\<forall>j. \<exists>k\<ge>j. 0 < accepts (client k))"

definition stalled_from :: "WiFiClient \<Rightarrow> nat \<Rightarrow> bool" where
  "stalled_from client j = (\<forall>k\<ge>j. connected (client k) \<and> accepts (client k) = 0)"

text \<open>The number of body bytes that reached the connection.\<close>

definition bytes_sent :: "dl_state \<Rightarrow> nat" where
  "bytes_sent st = length (concat (wire st))"

text \<open>
  For the proofs: the number of bytes the next write hands over, as a natural number, and
  the invariant of the loop.
\<close>

definition written_now :: "WiFiClient \<Rightarrow> size_t \<Rightarrow> dl_state \<Rightarrow> nat" where
  "written_now client size' st =
     min (accepts (client (polls st))) (min (unat size' - unat (sent st)) 4096)"

definition dl_inv :: "size_t \<Rightarrow> dl_state \<Rightarrow> bool" where
  "dl_inv size' st =
     (sent st \<le> size' \<and> length (concat (wire st)) = unat (sent st) \<and>
      list_all (\<lambda>c. c \<noteq> [] \<and> length c \<le> 4096 \<and> set c \<subseteq> {0xAA}) (wire st))"

text \<open>Clients for the concrete runs.\<close>

definition stalled_client :: WiFiClient where
  "stalled_client = (\<lambda>k. \<lparr>connected = True, accepts = 0\<rparr>)"

definition slow_client :: WiFiClient where
  "slow_client = (\<lambda>k. \<lparr>connected = True, accepts = (if even k then 0 else 1)\<rparr>)"

definition dropping_client :: WiFiClient where
  "dropping_client = (\<lambda>k. \<lparr>connected = (k = 0), accepts = 4096\<rparr>)"

definition retry_client :: WiFiClient where
  "retry_client = (\<lambda>k. \<lparr>connected = (k < 3), accepts = (if k = 2 then 40 else 0)\<rparr>)"

subsection \<open>Text: the Arduino \<open>String\<close> constructors\<close>

text \<open>
  \<open>String(n)\<close> for an integer writes it in decimal: no leading zero, a minus sign for a
  negative value.
\<close>

definition digit_char :: "nat \<Rightarrow> char" where
  "digit_char d = ''0123456789'' ! d"

fun String_nat :: "nat \<Rightarrow> string" where
  "String_nat n = (if n < 10 then [digit_char n] else String_nat (n div 10) @ [digit_char (n mod 10)])"

declare String_nat.simps [simp del]

definition String_int :: "int \<Rightarrow> string" where
  "String_int i = (if i < 0 then CHR ''-'' # String_nat (nat (- i)) else String_nat (nat i))"

text \<open>
  \<open>String(power * 0.25)\<close>: a \<open>double\<close> written with two decimals. A multiple of 0.25 is
  exact in binary and has at most two decimals, so the text is the exact value: the sign,
  the whole part, a point, and 00, 25, 50 or 75.
\<close>

definition String_quarters :: "int \<Rightarrow> string" where
  "String_quarters q =
     (if q < 0 then ''-'' else '''') @ String_nat (nat \<bar>q\<bar> div 4) @ ''.'' @
     [digit_char (25 * (nat \<bar>q\<bar> mod 4) div 10), digit_char (25 * (nat \<bar>q\<bar> mod 4) mod 10)]"

text \<open>The number a decimal text stands for, as the caller of an endpoint reads it.\<close>

definition decimal_value :: "string \<Rightarrow> nat" where
  "decimal_value s = foldl (\<lambda>a c. 10 * a + (of_char c - 48)) 0 s"

subsection \<open>Event monitor: \<open>disconnect_count\<close> and \<open>onWiFiEvent\<close>\<close>

text \<open>
  The two event identifiers the callback names, and every other identifier of the
  platform's enumeration.
\<close>

datatype WiFiEvent_t =
    ARDUINO_EVENT_WIFI_AP_STADISCONNECTED
  | ARDUINO_EVENT_WIFI_STA_DISCONNECTED
  | ARDUINO_EVENT_OTHER nat

text \<open>
  \<open>volatile uint32_t disconnect_count = 0;\<close> is the program's only global variable that
  changes. The callback takes its value and returns the new one.
\<close>

definition disconnect_count_init :: uint32_t where
  "disconnect_count_init = 0"

definition onWiFiEvent :: "WiFiEvent_t \<Rightarrow> uint32_t \<Rightarrow> uint32_t" where
  "onWiFiEvent event disconnect_count =
     (if event = ARDUINO_EVENT_WIFI_AP_STADISCONNECTED \<or> event = ARDUINO_EVENT_WIFI_STA_DISCONNECTED
      then disconnect_count + 1
      else disconnect_count)"

text \<open>
  What happens during the life of the process, as far as the counter is concerned: the
  platform delivers an event to the callback, or \<open>loop()\<close> calls \<open>server.handleClient()\<close>,
  which runs at most one request handler to completion. No handler assigns
  \<open>disconnect_count\<close>; \<open>handleStatus\<close> reads it.
\<close>

datatype activity = Deliver WiFiEvent_t | HandleClient

fun process :: "activity \<Rightarrow> uint32_t \<Rightarrow> uint32_t" where
  "process (Deliver event) disconnect_count = onWiFiEvent event disconnect_count"
| "process HandleClient disconnect_count = disconnect_count"

definition lifetime :: "activity list \<Rightarrow> uint32_t" where
  "lifetime acts = fold process acts disconnect_count_init"

text \<open>The events that mean a station, self or peer, disconnected.\<close>

fun disconnect_meaning :: "activity \<Rightarrow> bool" where
  "disconnect_meaning (Deliver event) =
     (event = ARDUINO_EVENT_WIFI_AP_STADISCONNECTED \<or> event = ARDUINO_EVENT_WIFI_STA_DISCONNECTED)"
| "disconnect_meaning HandleClient = False"

definition disconnect_events :: "activity list \<Rightarrow> nat" where
  "disconnect_events acts = length (filter disconnect_meaning acts)"

subsection \<open>Status and ping: \<open>handleStatus\<close>, \<open>handlePing\<close>\<close>

text \<open>
  What the platform answers when a handler asks: the access point's address and the
  hardware address as text, the free heap, the CPU frequency, the maximum transmit power in
  units of 0.25 dBm (\<open>None\<close> when \<open>esp_wifi_get_max_tx_power\<close> fails and leaves \<open>power\<close> at its
  initial 0), the TCP retransmit counter (\<open>None\<close> when \<open>LWIP_STATS && LWIP_TCP\<close> is off and
  the line is compiled out), and the tick count.
\<close>

record platform =
  softAPIP :: string
  macAddress :: string
  getFreeHeap :: uint32_t
  getCpuFreqMHz :: uint32_t
  get_max_tx_power :: "8 word option"
  tcp_rexmit :: "nat option"
  ticks :: nat

text \<open>
  Modelled from the spec: \<open>millis()\<close>, a function of the Arduino core that \<open>src/\<close> calls and
  does not contain. The spec calls its result "the current monotonic tick count", in
  milliseconds: it is the number of ticks since the process started, which only grows.
\<close>

definition millis :: "platform \<Rightarrow> nat" where
  "millis p = ticks p"

definition handleStatus :: "platform \<Rightarrow> uint32_t \<Rightarrow> http_response" where
  "handleStatus p disconnect_count =
     (let power = (case get_max_tx_power p of Some v \<Rightarrow> v | None \<Rightarrow> 0);
          json = ''{'';
          json = json @ ''\"ip\":\"'' @ softAPIP p @ ''\",'';
          json = json @ ''\"mac\":\"'' @ macAddress p @ ''\",'';
          json = json @ ''\"uptime\":'' @ String_nat (millis p div 1000) @ '','';
          json = json @ ''\"heap\":'' @ String_nat (unat (getFreeHeap p)) @ '','';
          json = json @ ''\"tx_power\":'' @ String_quarters (sint power) @ '','';
          json = json @ ''\"cpu_freq\":'' @ String_nat (unat (getCpuFreqMHz p));
          json = (case tcp_rexmit p of
                    Some rexmit \<Rightarrow> json @ '',\"tcp_rexmit\":'' @ String_nat rexmit
                  | None \<Rightarrow> json);
          json = json @ '',\"disconnects\":'' @ String_nat (unat disconnect_count);
          json = json @ ''}''
      in \<lparr>code = 200, content_type = ''application/json'', content = json\<rparr>)"

text \<open>The text of the status object up to the disconnect count.\<close>

definition status_fields :: "platform \<Rightarrow> string" where
  "status_fields p =
     ''{\"ip\":\"'' @ softAPIP p @ ''\",\"mac\":\"'' @ macAddress p @
     ''\",\"uptime\":'' @ String_nat (millis p div 1000) @
     '',\"heap\":'' @ String_nat (unat (getFreeHeap p)) @
     '',\"tx_power\":'' @
       String_quarters (sint (case get_max_tx_power p of Some v \<Rightarrow> v | None \<Rightarrow> 0)) @
     '',\"cpu_freq\":'' @ String_nat (unat (getCpuFreqMHz p)) @
     (case tcp_rexmit p of Some rexmit \<Rightarrow> '',\"tcp_rexmit\":'' @ String_nat rexmit | None \<Rightarrow> [])"

definition handlePing :: "platform \<Rightarrow> http_response" where
  "handlePing p = \<lparr>code = 200, content_type = ''text/plain'', content = String_nat (millis p)\<rparr>"

text \<open>A platform for the concrete runs.\<close>

definition sample_platform :: platform where
  "sample_platform =
     \<lparr>softAPIP = ''192.168.4.1'', macAddress = ''24:6F:28:AA:BB:CC'', getFreeHeap = 250000,
      getCpuFreqMHz = 240, get_max_tx_power = Some 78, tcp_rexmit = Some 3, ticks = 61500\<rparr>"

subsection \<open>Network scan: \<open>translateEncryptionType\<close>, \<open>handleScan\<close>\<close>

text \<open>
  The authentication modes \<open>translateEncryptionType\<close> names, and every other value of the
  platform's enumeration.
\<close>

datatype wifi_auth_mode_t =
    WIFI_AUTH_OPEN
  | WIFI_AUTH_WEP
  | WIFI_AUTH_WPA_PSK
  | WIFI_AUTH_WPA2_PSK
  | WIFI_AUTH_WPA_WPA2_PSK
  | WIFI_AUTH_WPA2_ENTERPRISE
  | WIFI_AUTH_WPA3_PSK
  | WIFI_AUTH_OTHER nat

fun translateEncryptionType :: "wifi_auth_mode_t \<Rightarrow> string" where
  "translateEncryptionType WIFI_AUTH_OPEN = ''Open''"
| "translateEncryptionType WIFI_AUTH_WEP = ''WEP''"
| "translateEncryptionType WIFI_AUTH_WPA_PSK = ''WPA_PSK''"
| "translateEncryptionType WIFI_AUTH_WPA2_PSK = ''WPA2_PSK''"
| "translateEncryptionType WIFI_AUTH_WPA_WPA2_PSK = ''WPA_WPA2_PSK''"
| "translateEncryptionType WIFI_AUTH_WPA2_ENTERPRISE = ''WPA2_ENTERPRISE''"
| "translateEncryptionType WIFI_AUTH_WPA3_PSK = ''WPA3_PSK''"
| "translateEncryptionType (WIFI_AUTH_OTHER v) = ''Unknown''"

text \<open>
  The scanner after \<open>WiFi.scanNetworks()\<close>: the number it returns (negative when the scan
  failed) and what \<open>WiFi.SSID(i)\<close>, \<open>WiFi.RSSI(i)\<close>, \<open>WiFi.channel(i)\<close> and
  \<open>WiFi.encryptionType(i)\<close> answer for an index.
\<close>

record scanner =
  scanNetworks :: int
  SSID :: "int \<Rightarrow> string"
  RSSI :: "int \<Rightarrow> int"
  channel :: "int \<Rightarrow> int"
  encryptionType :: "int \<Rightarrow> wifi_auth_mode_t"

text \<open>\<open>for (int i = 0; i < n; ++i) { if (i > 0) json += ","; json += "{"; ... }\<close>\<close>

function scan_loop :: "scanner \<Rightarrow> int \<Rightarrow> int \<Rightarrow> string \<Rightarrow> string" where
  "scan_loop w n i json =
     (if i < n
      then scan_loop w n (i + 1)
             (let json = (if i > 0 then json @ '','' else json);
                  json = json @ ''{'';
                  json = json @ ''\"ssid\":\"'' @ SSID w i @ ''\",'';
                  json = json @ ''\"rssi\":'' @ String_int (RSSI w i) @ '','';
                  json = json @ ''\"channel\":'' @ String_int (channel w i) @ '','';
                  json = json @ ''\"auth\":\"'' @ translateEncryptionType (encryptionType w i) @ ''\"'';
                  json = json @ ''}''
              in json)
      else json)"
  by pat_completeness auto
termination
  by (relation "measure (\<lambda>(w, n, i, json). nat (n - i))") auto

declare scan_loop.simps [simp del]

definition handleScan :: "scanner \<Rightarrow> http_response" where
  "handleScan w =
     (let n = scanNetworks w;
          json = ''['';
          json = scan_loop w n 0 json;
          json = json @ '']''
      in \<lparr>code = 200, content_type = ''application/json'', content = json\<rparr>)"

text \<open>
  The serialized sequence as the spec describes it: one object per element, with its fields,
  the objects separated by commas between brackets.
\<close>

fun comma_separated :: "string list \<Rightarrow> string" where
  "comma_separated [] = []"
| "comma_separated [x] = x"
| "comma_separated (x # y # ys) = x @ '','' @ comma_separated (y # ys)"

definition json_array :: "string list \<Rightarrow> string" where
  "json_array elements = ''['' @ comma_separated elements @ '']''"

definition network_object :: "string \<Rightarrow> int \<Rightarrow> int \<Rightarrow> string \<Rightarrow> string" where
  "network_object ssid rssi chan auth =
     ''{\"ssid\":\"'' @ ssid @ ''\",\"rssi\":'' @ String_int rssi @
     '',\"channel\":'' @ String_int chan @ '',\"auth\":\"'' @ auth @ ''\"}''"

definition scanned_network :: "scanner \<Rightarrow> int \<Rightarrow> string" where
  "scanned_network w i =
     network_object (SSID w i) (RSSI w i) (channel w i)
       (translateEncryptionType (encryptionType w i))"

subsection \<open>Station roster: \<open>handleClients\<close>\<close>

text \<open>
  \<open>wifi_sta_info_t\<close>: the six octets of the station's hardware address and its signal
  strength, an \<open>int8_t\<close>. \<open>wifi_sta_list_t\<close>: the array of stations and the number of
  entries in use, as \<open>esp_wifi_ap_get_sta_list\<close> fills them in.
\<close>

type_synonym mac_t = "uint8_t \<times> uint8_t \<times> uint8_t \<times> uint8_t \<times> uint8_t \<times> uint8_t"

record wifi_sta_info_t =
  mac :: mac_t
  rssi :: "8 word"

record wifi_sta_list_t =
  sta :: "wifi_sta_info_t list"
  num :: int

text \<open>\<open>%02X\<close>: an octet as two hexadecimal digits, upper case.\<close>

definition hex_digit :: "nat \<Rightarrow> char" where
  "hex_digit d = ''0123456789ABCDEF'' ! d"

definition hex2 :: "uint8_t \<Rightarrow> string" where
  "hex2 b = [hex_digit (unat b div 16), hex_digit (unat b mod 16)]"

text \<open>\<open>sprintf(macStr, "%02X:%02X:%02X:%02X:%02X:%02X", mac[0], ..., mac[5]);\<close>\<close>

fun sprintf_mac :: "mac_t \<Rightarrow> string" where
  "sprintf_mac (m0, m1, m2, m3, m4, m5) =
     hex2 m0 @ '':'' @ hex2 m1 @ '':'' @ hex2 m2 @ '':'' @ hex2 m3 @ '':'' @ hex2 m4 @ '':'' @ hex2 m5"

text \<open>\<open>for (int i = 0; i < wifi_sta_list.num; i++) { if (i > 0) json += ","; ... }\<close>\<close>

function clients_loop :: "wifi_sta_list_t \<Rightarrow> int \<Rightarrow> string \<Rightarrow> string" where
  "clients_loop wifi_sta_list i json =
     (if i < num wifi_sta_list
      then clients_loop wifi_sta_list (i + 1)
             (let json = (if i > 0 then json @ '','' else json);
                  json = json @ ''{'';
                  macStr = sprintf_mac (mac (sta wifi_sta_list ! nat i));
                  json = json @ ''\"mac\":\"'' @ macStr @ ''\",'';
                  json = json @ ''\"rssi\":'' @ String_int (sint (rssi (sta wifi_sta_list ! nat i)));
                  json = json @ ''}''
              in json)
      else json)"
  by pat_completeness auto
termination
  by (relation "measure (\<lambda>(l, i, json). nat (num l - i))") auto

declare clients_loop.simps [simp del]

definition handleClients :: "wifi_sta_list_t \<Rightarrow> http_response" where
  "handleClients wifi_sta_list =
     (let json = ''['';
          json = clients_loop wifi_sta_list 0 json;
          json = json @ '']''
      in \<lparr>code = 200, content_type = ''application/json'', content = json\<rparr>)"

text \<open>One station as the spec describes it, and reading a hexadecimal octet back.\<close>

definition station_object :: "wifi_sta_info_t \<Rightarrow> string" where
  "station_object s =
     ''{\"mac\":\"'' @ sprintf_mac (mac s) @ ''\",\"rssi\":'' @ String_int (sint (rssi s)) @ ''}''"

definition hex_value :: "char \<Rightarrow> nat" where
  "hex_value c = (if of_char c < (65 :: nat) then of_char c - 48 else of_char c - 55)"

definition octet_value :: "string \<Rightarrow> nat" where
  "octet_value s = 16 * hex_value (s ! 0) + hex_value (s ! 1)"

definition is_hex_upper :: "char \<Rightarrow> bool" where
  "is_hex_upper c = (c \<in> set ''0123456789ABCDEF'')"

text \<open>The octets a colon-separated address text spells, at its six positions.\<close>

definition mac_octets :: "string \<Rightarrow> nat list" where
  "mac_octets s = map (\<lambda>k. octet_value (take 2 (drop (3 * k) s))) [0, 1, 2, 3, 4, 5]"

definition mac_colons :: "string \<Rightarrow> string" where
  "mac_colons s = map (\<lambda>k. s ! k) [2, 5, 8, 11, 14]"

text \<open>A scanner and rosters for the concrete runs.\<close>

definition sample_scanner :: scanner where
  "sample_scanner =
     \<lparr>scanNetworks = 2,
      SSID = (\<lambda>i. if i = 0 then ''home'' else ''cafe''),
      RSSI = (\<lambda>i. if i = 0 then - 42 else - 77),
      channel = (\<lambda>i. if i = 0 then 6 else 11),
      encryptionType = (\<lambda>i. if i = 0 then WIFI_AUTH_WPA2_PSK else WIFI_AUTH_OPEN)\<rparr>"

definition empty_scanner :: scanner where
  "empty_scanner = sample_scanner\<lparr>scanNetworks := 0\<rparr>"

definition sample_station :: wifi_sta_info_t where
  "sample_station = \<lparr>mac = (0x24, 0x6F, 0x28, 0x0A, 0xBB, 0x00), rssi = - 55\<rparr>"

definition sample_roster :: wifi_sta_list_t where
  "sample_roster = \<lparr>sta = [sample_station, sample_station\<lparr>rssi := - 70\<rparr>], num = 2\<rparr>"

definition empty_roster :: wifi_sta_list_t where
  "empty_roster = \<lparr>sta = [sample_station], num = 0\<rparr>"

text \<open>The elements the two endpoints serialize, in order.\<close>

definition scan_elements :: "scanner \<Rightarrow> string list" where
  "scan_elements w = map (scanned_network w) [0..scanNetworks w - 1]"

definition roster_elements :: "wifi_sta_list_t \<Rightarrow> string list" where
  "roster_elements l = map station_object (take (nat (num l)) (sta l))"

section \<open>Proofs\<close>

subsection \<open>The send loop\<close>

lemma unat_toSend: "sent' \<le> size' \<Longrightarrow> unat (toSend size' sent') = min (unat size' - unat sent') 4096"
  by (auto simp: toSend_def word_less_nat_alt word_le_nat_alt unat_sub)

lemma unat_client_write: "unat (client_write p n) = min (accepts p) (unat n)"
proof -
  have "min (accepts p) (unat n) \<le> unat n" by simp
  then show ?thesis
    unfolding client_write_def by (rule le_unat_uoi)
qed

lemma written_eq: "sent st \<le> size' \<Longrightarrow>
  unat (client_write (client (polls st)) (toSend size' (sent st))) = written_now client size' st"
  by (simp add: unat_client_write unat_toSend written_now_def)

lemma loop_body_stall:
  assumes "sent st \<le> size'" "written_now client size' st = 0"
  shows "loop_body client size' st = st\<lparr>delays := Suc (delays st), polls := Suc (polls st)\<rparr>"
proof -
  have "unat (client_write (client (polls st)) (toSend size' (sent st))) = 0"
    using assms by (simp add: written_eq)
  then have "client_write (client (polls st)) (toSend size' (sent st)) = 0"
    by (simp add: unat_eq_0)
  then show ?thesis by (simp add: loop_body_def)
qed

lemma loop_body_write:
  assumes "sent st \<le> size'" "0 < written_now client size' st"
  shows "loop_body client size' st =
           st\<lparr>sent := sent st + of_nat (written_now client size' st),
              wire := wire st @ [replicate (written_now client size' st) 0xAA],
              polls := Suc (polls st)\<rparr>"
    and "unat (sent st + of_nat (written_now client size' st)) = unat (sent st) + written_now client size' st"
proof -
  let ?w = "client_write (client (polls st)) (toSend size' (sent st))"
  have u: "unat ?w = written_now client size' st" using assms by (simp add: written_eq)
  have w: "?w = of_nat (written_now client size' st)"
    unfolding u [symmetric] by simp
  have pos: "0 < ?w" using u assms(2) by (simp add: word_less_nat_alt)
  have le: "written_now client size' st \<le> 4096" by (simp add: written_now_def)
  have tk: "take (unat ?w) buf = replicate (written_now client size' st) 0xAA"
    using le by (simp add: u buf_def min_def)
  show "loop_body client size' st =
           st\<lparr>sent := sent st + of_nat (written_now client size' st),
              wire := wire st @ [replicate (written_now client size' st) 0xAA],
              polls := Suc (polls st)\<rparr>"
    using pos tk w by (simp add: loop_body_def Let_def)
  have "unat (sent st) + unat ?w \<le> unat size'"
    using assms(1) by (simp add: u written_now_def word_le_nat_alt)
  also have "unat size' < 2 ^ 32" using unsigned_less [of size'] by simp
  finally have "unat (sent st + ?w) = unat (sent st) + unat ?w"
    by (simp add: unat_add_lem [THEN iffD1])
  then show "unat (sent st + of_nat (written_now client size' st)) = unat (sent st) + written_now client size' st"
    using w u by simp
qed

lemma dl_inv_init: "dl_inv size' dl_init"
  by (simp add: dl_inv_def dl_init_def)

lemma written_now_le: "written_now client size' st \<le> unat size' - unat (sent st)"
  and written_now_le_buf: "written_now client size' st \<le> 4096"
  by (simp_all add: written_now_def)

lemma dl_inv_body:
  assumes "dl_inv size' st"
  shows "dl_inv size' (loop_body client size' st)"
proof (cases "written_now client size' st = 0")
  case True
  with assms show ?thesis
    by (simp add: dl_inv_def loop_body_stall)
next
  case False
  then have pos: "0 < written_now client size' st" by simp
  have le: "sent st \<le> size'" using assms by (simp add: dl_inv_def)
  note b = loop_body_write [OF le pos, of ]
  have "unat (sent st) + written_now client size' st \<le> unat size'"
    using written_now_le [of client size' st] le by (simp add: word_le_nat_alt)
  then have "sent st + of_nat (written_now client size' st) \<le> size'"
    by (simp add: word_le_nat_alt b(2))
  then show ?thesis
    using assms pos written_now_le_buf [of client size' st]
    by (simp add: dl_inv_def b)
qed

lemma dl_inv_run: "dl_inv size' st \<Longrightarrow> dl_inv size' (loop_run client size' n st)"
  by (induction n arbitrary: st) (simp_all add: dl_inv_body)

lemma send_loop_is_run:
  assumes "send_loop client size' st = Some st'"
  shows "\<exists>n. st' = loop_run client size' n st \<and> \<not> loop_cond client size' st'"
proof (rule send_loop.raw_induct [OF _ assms])
  fix f :: "WiFiClient \<Rightarrow> size_t \<Rightarrow> dl_state \<Rightarrow> dl_state option"
  fix cl sz s s'
  assume IH: "\<And>cl sz s s'. f cl sz s = Some s' \<Longrightarrow>
                 \<exists>n. s' = loop_run cl sz n s \<and> \<not> loop_cond cl sz s'"
    and eq: "(if loop_cond cl sz s then f cl sz (loop_body cl sz s) else Some s) = Some s'"
  show "\<exists>n. s' = loop_run cl sz n s \<and> \<not> loop_cond cl sz s'"
  proof (cases "loop_cond cl sz s")
    case True
    with eq have "f cl sz (loop_body cl sz s) = Some s'" by simp
    from IH [OF this] obtain n where "s' = loop_run cl sz n (loop_body cl sz s)"
      "\<not> loop_cond cl sz s'" by blast
    with True have "s' = loop_run cl sz (Suc n) s \<and> \<not> loop_cond cl sz s'" by simp
    then show ?thesis by blast
  next
    case False
    with eq have "s' = loop_run cl sz 0 s \<and> \<not> loop_cond cl sz s'" by auto
    then show ?thesis by blast
  qed
qed

lemma run_is_send_loop:
  "\<not> loop_cond client size' (loop_run client size' n st) \<Longrightarrow>
   send_loop client size' st = Some (loop_run client size' n st)"
proof (induction n arbitrary: st)
  case 0
  then show ?case by (simp add: send_loop.simps)
next
  case (Suc n)
  show ?case
  proof (cases "loop_cond client size' st")
    case True
    with Suc show ?thesis by (subst send_loop.simps) simp
  next
    case False
    then show ?thesis by (subst send_loop.simps) simp
  qed
qed

lemma send_loop_inv:
  "send_loop client size' st = Some st' \<Longrightarrow> dl_inv size' st \<Longrightarrow> dl_inv size' st'"
  using send_loop_is_run dl_inv_run by blast

lemma send_loop_step:
  "loop_cond client size' st \<Longrightarrow>
   send_loop client size' st = send_loop client size' (loop_body client size' st)"
  by (subst send_loop.simps) simp

lemma send_loop_stop:
  "\<not> loop_cond client size' st \<Longrightarrow> send_loop client size' st = Some st"
  by (subst send_loop.simps) simp

lemma written_now_pos:
  "sent st < size' \<Longrightarrow> 0 < accepts (client (polls st)) \<Longrightarrow> 0 < written_now client size' st"
  by (simp add: written_now_def word_less_nat_alt)

lemma send_loop_advance:
  assumes "\<forall>k. connected (client k)"
  shows "sent st < size' \<Longrightarrow> 0 < accepts (client (polls st + d)) \<Longrightarrow>
         \<exists>st1. send_loop client size' st = send_loop client size' st1 \<and>
               unat (sent st) < unat (sent st1) \<and> sent st1 \<le> size'"
proof (induction d arbitrary: st)
  case 0
  have le: "sent st \<le> size'" using 0 by simp
  have pos: "0 < written_now client size' st" using 0 by (simp add: written_now_pos)
  note b = loop_body_write [OF le pos]
  have "unat (sent st) + written_now client size' st \<le> unat size'"
    using written_now_le [of client size' st] le by (simp add: word_le_nat_alt)
  then have "sent (loop_body client size' st) \<le> size'"
    by (simp add: b word_le_nat_alt)
  moreover have "unat (sent st) < unat (sent (loop_body client size' st))"
    using pos by (simp add: b)
  moreover have "send_loop client size' st = send_loop client size' (loop_body client size' st)"
    using 0 assms by (simp add: send_loop_step loop_cond_def)
  ultimately show ?case by blast
next
  case (Suc d)
  have le: "sent st \<le> size'" using Suc.prems by simp
  have step: "send_loop client size' st = send_loop client size' (loop_body client size' st)"
    using Suc.prems assms by (simp add: send_loop_step loop_cond_def)
  show ?case
  proof (cases "written_now client size' st = 0")
    case True
    note b = loop_body_stall [OF le True]
    have "\<exists>st1. send_loop client size' (loop_body client size' st) = send_loop client size' st1 \<and>
               unat (sent (loop_body client size' st)) < unat (sent st1) \<and> sent st1 \<le> size'"
      using Suc.prems by (intro Suc.IH) (simp_all add: b)
    then show ?thesis using step by (simp add: b)
  next
    case False
    then have pos: "0 < written_now client size' st" by simp
    note b = loop_body_write [OF le pos]
    have "unat (sent st) + written_now client size' st \<le> unat size'"
      using written_now_le [of client size' st] le by (simp add: word_le_nat_alt)
    then have "sent (loop_body client size' st) \<le> size'"
      by (simp add: b word_le_nat_alt)
    moreover have "unat (sent st) < unat (sent (loop_body client size' st))"
      using pos by (simp add: b)
    ultimately show ?thesis using step by blast
  qed
qed

lemma send_loop_completes:
  assumes conn: "\<forall>k. connected (client k)"
    and prog: "\<forall>j. \<exists>k\<ge>j. 0 < accepts (client k)"
  shows "sent st \<le> size' \<Longrightarrow> \<exists>st'. send_loop client size' st = Some st' \<and> sent st' = size'"
proof (induction "unat size' - unat (sent st)" arbitrary: st rule: less_induct)
  case less
  show ?case
  proof (cases "sent st = size'")
    case True
    then show ?thesis by (simp add: send_loop_stop loop_cond_def)
  next
    case False
    with less.prems have lt: "sent st < size'" by simp
    from prog obtain k where "polls st \<le> k" "0 < accepts (client k)" by blast
    then have "0 < accepts (client (polls st + (k - polls st)))" by simp
    from send_loop_advance [OF conn lt this]
    obtain st1 where st1: "send_loop client size' st = send_loop client size' st1"
      "unat (sent st) < unat (sent st1)" "sent st1 \<le> size'" by blast
    have "unat size' - unat (sent st1) < unat size' - unat (sent st)"
      using st1(2,3) by (simp add: word_le_nat_alt)
    from less.hyps [OF this st1(3)] st1(1) show ?thesis by simp
  qed
qed

lemma loop_run_stalled:
  assumes "sent st < size'"
  shows "\<forall>k\<ge>polls st. connected (client k) \<and> accepts (client k) = 0 \<Longrightarrow>
         loop_run client size' n st = st\<lparr>delays := delays st + n, polls := polls st + n\<rparr>"
  using assms
proof (induction n arbitrary: st)
  case 0
  then show ?case by simp
next
  case (Suc n)
  have le: "sent st \<le> size'" using Suc.prems by simp
  have z: "written_now client size' st = 0" using Suc.prems by (simp add: written_now_def)
  note b = loop_body_stall [OF le z]
  have c: "loop_cond client size' st" using Suc.prems by (simp add: loop_cond_def)
  have "loop_run client size' n (loop_body client size' st) =
        (loop_body client size' st)\<lparr>delays := delays (loop_body client size' st) + n,
                                   polls := polls (loop_body client size' st) + n\<rparr>"
    using Suc.prems by (intro Suc.IH) (simp_all add: b)
  then show ?case using c by (simp add: b)
qed

lemma send_loop_never_returns:
  assumes "sent st < size'"
    and "\<forall>k\<ge>polls st. connected (client k) \<and> accepts (client k) = 0"
  shows "send_loop client size' st = None"
proof (cases "send_loop client size' st")
  case None
  then show ?thesis .
next
  case (Some st')
  from send_loop_is_run [OF Some] obtain n where
    n: "st' = loop_run client size' n st" "\<not> loop_cond client size' st'" by blast
  have "st' = st\<lparr>delays := delays st + n, polls := polls st + n\<rparr>"
    using n(1) loop_run_stalled [OF assms] by simp
  then have "loop_cond client size' st'"
    using assms by (simp add: loop_cond_def)
  with n(2) show ?thesis by simp
qed

lemma cooperative_progress:
  "cooperative client \<Longrightarrow> (\<forall>k. connected (client k)) \<and> (\<forall>j. \<exists>k\<ge>j. 0 < accepts (client k))"
  unfolding cooperative_def
  by (metis le_refl less_le_trans zero_less_numeral)

lemma dl_inv_wire:
  assumes "dl_inv size' st" "sent st = size'"
  shows "concat (wire st) = replicate (unat size') 0xAA"
    and "list_all (\<lambda>c. length c \<le> 4096) (wire st)"
proof -
  have "set (concat (wire st)) \<subseteq> {0xAA}"
    using assms(1) by (auto simp: dl_inv_def list_all_iff)
  moreover have "length (concat (wire st)) = unat size'"
    using assms by (simp add: dl_inv_def)
  ultimately show "concat (wire st) = replicate (unat size') 0xAA"
    by (metis replicate_eqI singletonD subsetD)
  show "list_all (\<lambda>c. length c \<le> 4096) (wire st)"
    using assms(1) by (simp add: dl_inv_def list_all_iff)
qed

lemma send_loop_complete_wire:
  assumes "\<forall>k. connected (client k)" "\<forall>j. \<exists>k\<ge>j. 0 < accepts (client k)"
  shows "\<exists>st. send_loop client size' dl_init = Some st \<and> sent st = size' \<and>
              concat (wire st) = replicate (unat size') 0xAA \<and>
              list_all (\<lambda>c. length c \<le> 4096) (wire st)"
proof -
  from send_loop_completes [OF assms, of dl_init size']
  obtain st where st: "send_loop client size' dl_init = Some st" "sent st = size'"
    by (auto simp: dl_init_def)
  have "dl_inv size' st" using send_loop_inv [OF st(1) dl_inv_init] .
  from dl_inv_wire [OF this st(2)] st show ?thesis by blast
qed


lemma atol_examples: "atol ''100'' = 100" "atol ''abc'' = 0" "atol ''10000'' = 10000"
  "atol ''4294967396'' = 2147483647"
  by (simp_all add: atol_def isspace_def is_digit_def digit_val_def LONG_MAX_def LONG_MIN_def)

lemma handleDownload_Some:
  "send_loop client (download_size toInt req) dl_init = Some st \<Longrightarrow>
   handleDownload toInt req client =
     Some \<lparr>head = \<lparr>code = 200, content_type = ''application/octet-stream'', content = []\<rparr>,
           content_length = download_size toInt req, final = st\<rparr>"
  by (simp add: handleDownload_def)

lemma handleDownload_None:
  "send_loop client (download_size toInt req) dl_init = None \<Longrightarrow>
   handleDownload toInt req client = None"
  by (simp add: handleDownload_def)

lemma send_loop_size_zero: "send_loop client 0 st = Some st"
  by (simp add: send_loop_stop loop_cond_def)

lemma loop_run_Suc_end:
  "loop_run client size' (Suc n) st =
     (if loop_cond client size' (loop_run client size' n st)
      then loop_body client size' (loop_run client size' n st)
      else loop_run client size' n st)"
proof (induction n arbitrary: st)
  case 0
  show ?case by simp
next
  case (Suc n)
  show ?case
  proof (cases "loop_cond client size' st")
    case True
    then show ?thesis using Suc [of "loop_body client size' st"] by simp
  next
    case False
    then show ?thesis by simp
  qed
qed

lemma loop_body_zero_write:
  "client_write (client (polls st)) (toSend size' (sent st)) = 0 \<Longrightarrow>
   loop_body client size' st = st\<lparr>delays := Suc (delays st), polls := Suc (polls st)\<rparr>"
  by (simp add: loop_body_def)

lemma bytes_sent_run:
  "bytes_sent (loop_run client size' n dl_init) = unat (sent (loop_run client size' n dl_init))"
  using dl_inv_run [OF dl_inv_init, of size' client n] by (simp add: dl_inv_def bytes_sent_def)

lemma download_size_examples:
  "download_size atol \<lparr>args = [(''size'', ''100'')]\<rparr> = 100"
  "download_size atol \<lparr>args = [(''size'', ''10000'')]\<rparr> = 10000"
  by (simp_all add: download_size_def hasArg_def arg_def atol_examples)

lemma makes_progress_slow: "makes_progress slow_client"
  unfolding makes_progress_def slow_client_def
proof
  fix j :: nat
  have "j \<le> Suc (2 * j)" by simp
  moreover have "0 < accepts \<lparr>connected = True, accepts = (if even (Suc (2 * j)) then 0 else 1)\<rparr>"
    by simp
  ultimately show "\<exists>k\<ge>j. 0 < accepts \<lparr>connected = True, accepts = (if even k then 0 else 1)\<rparr>"
    by blast
qed

lemma loop_run_stopped: "\<not> loop_cond client size' st \<Longrightarrow> loop_run client size' k st = st"
  by (cases k) simp_all

lemma loop_run_add:
  "loop_run client size' (n + k) st = loop_run client size' k (loop_run client size' n st)"
proof (induction n arbitrary: st)
  case 0
  show ?case by simp
next
  case (Suc n)
  show ?case
  proof (cases "loop_cond client size' st")
    case True
    then show ?thesis using Suc [of "loop_body client size' st"] by simp
  next
    case False
    then show ?thesis by (simp add: loop_run_stopped)
  qed
qed

lemma loop_run_zero_writes:
  "sent st < size' \<Longrightarrow>
   \<forall>j<k. connected (client (polls st + j)) \<and>
          client_write (client (polls st + j)) (toSend size' (sent st)) = 0 \<Longrightarrow>
   loop_run client size' k st = st\<lparr>delays := delays st + k, polls := polls st + k\<rparr>"
proof (induction k arbitrary: st)
  case 0
  show ?case by simp
next
  case (Suc k)
  have first: "connected (client (polls st))"
    "client_write (client (polls st)) (toSend size' (sent st)) = 0"
    using Suc.prems(2) [rule_format, of 0] by simp_all
  then have c: "loop_cond client size' st" using Suc.prems(1) by (simp add: loop_cond_def)
  have b: "loop_body client size' st = st\<lparr>delays := Suc (delays st), polls := Suc (polls st)\<rparr>"
    using first(2) by (rule loop_body_zero_write)
  have rest: "\<forall>j<k. connected (client (polls (loop_body client size' st) + j)) \<and>
          client_write (client (polls (loop_body client size' st) + j))
            (toSend size' (sent (loop_body client size' st))) = 0"
  proof (intro allI impI)
    fix j assume "j < k"
    then have "Suc j < Suc k" by simp
    from Suc.prems(2) [rule_format, OF this]
    show "connected (client (polls (loop_body client size' st) + j)) \<and>
          client_write (client (polls (loop_body client size' st) + j))
            (toSend size' (sent (loop_body client size' st))) = 0"
      by (simp add: b)
  qed
  have "sent (loop_body client size' st) < size'" using Suc.prems(1) by (simp add: b)
  from Suc.IH [OF this rest] c show ?case by (simp add: b)
qed

subsection \<open>Decimal text, the counter and the status object\<close>

lemma of_char_digit: "d < 10 \<Longrightarrow> of_char (digit_char d) = 48 + d"
proof -
  assume "d < 10"
  then have "d \<in> {0, 1, 2, 3, 4, 5, 6, 7, 8, 9}" by auto
  then show ?thesis by (auto simp: digit_char_def)
qed

lemma decimal_value_snoc: "decimal_value (s @ [c]) = 10 * decimal_value s + (of_char c - 48)"
  by (simp add: decimal_value_def)

lemma decimal_value_String_nat: "decimal_value (String_nat n) = n"
proof (induction n rule: String_nat.induct)
  case (1 n)
  show ?case
  proof (cases "n < 10")
    case True
    then show ?thesis
      by (subst String_nat.simps) (simp add: decimal_value_def of_char_digit)
  next
    case False
    then have "decimal_value (String_nat (n div 10)) = n div 10" using 1 by simp
    then show ?thesis using False
      by (subst String_nat.simps) (simp add: decimal_value_snoc of_char_digit)
  qed
qed

lemma fold_process_count:
  "fold process acts c = c + of_nat (disconnect_events acts)"
proof (induction acts arbitrary: c)
  case Nil
  show ?case by (simp add: disconnect_events_def)
next
  case (Cons a acts)
  have "process a c = c + of_nat (if disconnect_meaning a then 1 else 0)"
    by (cases a) (auto simp: onWiFiEvent_def)
  then show ?case using Cons [of "process a c"] by (simp add: disconnect_events_def)
qed

lemma lifetime_count: "unat (lifetime acts) = disconnect_events acts mod 2 ^ 32"
  by (simp add: lifetime_def disconnect_count_init_def fold_process_count unat_of_nat)

lemma handleStatus_content:
  "content (handleStatus p c) =
     status_fields p @ '',\"disconnects\":'' @ String_nat (unat c) @ ''}''"
  by (simp add: handleStatus_def status_fields_def Let_def split: option.splits)

lemma lifetime_eq: "lifetime acts = of_nat (disconnect_events acts)"
  by (simp add: lifetime_def disconnect_count_init_def fold_process_count)

lemma disconnect_events_replicate:
  "disconnect_events (replicate n (Deliver ARDUINO_EVENT_WIFI_AP_STADISCONNECTED)) = n"
  by (simp add: disconnect_events_def)

lemma process_cases:
  "process a c = (if disconnect_meaning a then c + 1 else c)"
  by (cases a) (auto simp: onWiFiEvent_def)

lemma lifetime_snoc: "lifetime (acts @ [a]) = process a (lifetime acts)"
  by (simp add: lifetime_def)

subsection \<open>The scan and roster loops\<close>

lemma comma_separated_Cons:
  "comma_separated (x # xs) = x @ concat (map (\<lambda>y. '','' @ y) xs)"
  by (induction xs arbitrary: x) simp_all

lemma separated_upto:
  "concat (map (\<lambda>k. (if k > 0 then '','' else []) @ f k) [0..m]) = comma_separated (map f [0..m])"
proof (cases "0 \<le> m")
  case True
  have "map (\<lambda>k. (if k > 0 then '','' else []) @ f k) [1..m] = map (\<lambda>k. '','' @ f k) [1..m]"
    by (rule map_cong) auto
  then have "concat (map (\<lambda>k. (if k > 0 then '','' else []) @ f k) [1..m]) =
             concat (map (\<lambda>y. '','' @ y) (map f [1..m]))"
    by (simp only: map_map o_def)
  then show ?thesis
    using True by (simp add: upto_rec1 [of 0 m] comma_separated_Cons)
next
  case False
  then show ?thesis by simp
qed

lemma scan_loop_eq:
  "scan_loop w n i json =
     json @ concat (map (\<lambda>k. (if k > 0 then '','' else []) @ scanned_network w k) [i..n - 1])"
proof (induction w n i json rule: scan_loop.induct)
  case (1 w n i json)
  show ?case
  proof (cases "i < n")
    case True
    then have u: "[i..n - 1] = i # [i + 1..n - 1]" by (simp add: upto_rec1)
    show ?thesis
      using True 1
      by (subst scan_loop.simps)
         (simp add: u Let_def scanned_network_def network_object_def)
  next
    case False
    then show ?thesis by (subst scan_loop.simps) simp
  qed
qed

lemma handleScan_eq:
  "handleScan w =
     \<lparr>code = 200, content_type = ''application/json'',
      content = json_array (map (scanned_network w) [0..scanNetworks w - 1])\<rparr>"
  by (simp add: handleScan_def Let_def scan_loop_eq separated_upto json_array_def)

lemma clients_loop_eq:
  "clients_loop l i json =
     json @ concat (map (\<lambda>k. (if k > 0 then '','' else []) @ station_object (sta l ! nat k))
                        [i..num l - 1])"
proof (induction l i json rule: clients_loop.induct)
  case (1 l i json)
  show ?case
  proof (cases "i < num l")
    case True
    then have u: "[i..num l - 1] = i # [i + 1..num l - 1]" by (simp add: upto_rec1)
    show ?thesis
      using True 1
      by (subst clients_loop.simps) (simp add: u Let_def station_object_def)
  next
    case False
    then show ?thesis by (subst clients_loop.simps) simp
  qed
qed

lemma map_nth_upto:
  assumes "nat n \<le> length xs"
  shows "map (\<lambda>k. f (xs ! nat k)) [0..n - 1] = map f (take (nat n) xs)"
proof (rule nth_equalityI)
  show "length (map (\<lambda>k. f (xs ! nat k)) [0..n - 1]) = length (map f (take (nat n) xs))"
    using assms by simp
next
  fix j assume "j < length (map (\<lambda>k. f (xs ! nat k)) [0..n - 1])"
  then have j: "int j \<le> n - 1" "j < nat n" by auto
  then have "[0..n - 1] ! j = int j" by (simp add: nth_upto)
  then show "map (\<lambda>k. f (xs ! nat k)) [0..n - 1] ! j = map f (take (nat n) xs) ! j"
    using j assms by simp
qed

lemma handleClients_eq:
  assumes "nat (num l) \<le> length (sta l)"
  shows "handleClients l =
     \<lparr>code = 200, content_type = ''application/json'',
      content = json_array (map station_object (take (nat (num l)) (sta l)))\<rparr>"
proof -
  have "map (\<lambda>k. station_object (sta l ! nat k)) [0..num l - 1] =
        map station_object (take (nat (num l)) (sta l))"
    using assms by (rule map_nth_upto)
  then show ?thesis
    by (simp add: handleClients_def Let_def clients_loop_eq json_array_def
        separated_upto [of "\<lambda>k. station_object (sta l ! nat k)"])
qed

lemma hex_value_digit: "d < 16 \<Longrightarrow> hex_value (hex_digit d) = d"
proof -
  have "\<forall>d\<in>{..<16}. hex_value (hex_digit d) = d"
    by (simp add: lessThan_nat_numeral lessThan_Suc hex_digit_def hex_value_def)
  then show "d < 16 \<Longrightarrow> hex_value (hex_digit d) = d" by simp
qed

lemma is_hex_upper_digit: "d < 16 \<Longrightarrow> is_hex_upper (hex_digit d)"
proof -
  have "\<forall>d\<in>{..<16}. is_hex_upper (hex_digit d)"
    by (simp add: lessThan_nat_numeral lessThan_Suc hex_digit_def is_hex_upper_def)
  then show "d < 16 \<Longrightarrow> is_hex_upper (hex_digit d)" by simp
qed

lemma unat_octet_div: "unat (b :: uint8_t) div 16 < 16"
  using unsigned_less [of b, where 'a = nat] by simp

lemma octet_value_hex2: "octet_value (hex2 b) = unat b"
  by (simp add: octet_value_def hex2_def hex_value_digit unat_octet_div)

lemma hex2_upper: "list_all is_hex_upper (hex2 b)"
  by (simp add: hex2_def is_hex_upper_digit unat_octet_div)

lemma sprintf_mac_octets:
  "mac_octets (sprintf_mac (m0, m1, m2, m3, m4, m5)) =
     [unat m0, unat m1, unat m2, unat m3, unat m4, unat m5]"
  "mac_colons (sprintf_mac (m0, m1, m2, m3, m4, m5)) = '':::::''"
  "length (sprintf_mac (m0, m1, m2, m3, m4, m5)) = 17"
  by (simp_all add: mac_octets_def mac_colons_def hex2_def hex_value_digit unat_octet_div
      octet_value_def)

lemma String_int_examples:
  "String_int (- 42) = ''-42''" "String_int (- 77) = ''-77''" "String_int 6 = ''6''"
  "String_int 11 = ''11''" "String_int (- 55) = ''-55''" "String_int (- 70) = ''-70''"
  by (simp_all add: String_int_def String_nat.simps digit_char_def)

subsection \<open>The decimal parser on decimal text\<close>

lemma digit_char_facts:
  assumes "d < 10"
  shows "is_digit (digit_char d)" "digit_val (digit_char d) = int d"
    "digit_char d \<noteq> CHR ''-''" "digit_char d \<noteq> CHR ''+''" "\<not> isspace (digit_char d)"
proof -
  have "\<forall>d\<in>{..<10}. is_digit (digit_char d) \<and> digit_val (digit_char d) = int d \<and>
          digit_char d \<noteq> CHR ''-'' \<and> digit_char d \<noteq> CHR ''+'' \<and> \<not> isspace (digit_char d)"
    by (simp add: lessThan_nat_numeral lessThan_Suc digit_char_def is_digit_def digit_val_def
        isspace_def)
  then show "is_digit (digit_char d)" "digit_val (digit_char d) = int d"
    "digit_char d \<noteq> CHR ''-''" "digit_char d \<noteq> CHR ''+''" "\<not> isspace (digit_char d)"
    using assms by simp_all
qed

lemma atol_digits_append:
  "list_all is_digit xs \<Longrightarrow> atol_digits acc (xs @ ys) = atol_digits (atol_digits acc xs) ys"
  by (induction xs arbitrary: acc) simp_all

lemma String_nat_digits:
  "list_all is_digit (String_nat n) \<and> atol_digits 0 (String_nat n) = int n \<and>
   String_nat n \<noteq> [] \<and> hd (String_nat n) \<notin> {CHR ''-'', CHR ''+''} \<and>
   \<not> isspace (hd (String_nat n))"
proof (induction n rule: String_nat.induct)
  case (1 n)
  show ?case
  proof (cases "n < 10")
    case True
    then show ?thesis
      by (subst (1 2 3 4 5) String_nat.simps) (simp add: digit_char_facts)
  next
    case False
    then have IH: "list_all is_digit (String_nat (n div 10))"
      "atol_digits 0 (String_nat (n div 10)) = int (n div 10)"
      "String_nat (n div 10) \<noteq> []"
      "hd (String_nat (n div 10)) \<notin> {CHR ''-'', CHR ''+''}"
      "\<not> isspace (hd (String_nat (n div 10)))"
      using 1 by simp_all
    have d: "n mod 10 < 10" by simp
    have s: "String_nat n = String_nat (n div 10) @ [digit_char (n mod 10)]"
      using False by (subst String_nat.simps) simp
    have "int (n div 10) * 10 + int (n mod 10) = int n"
      by (metis of_nat_add of_nat_mult of_nat_numeral div_mult_mod_eq)
    then show ?thesis
      using IH digit_char_facts [OF d]
      by (simp add: s atol_digits_append mult.commute)
  qed
qed

lemma atol_String_nat:
  assumes "n < 2 ^ 31"
  shows "atol (String_nat n) = of_nat n"
proof -
  obtain c cs where s: "String_nat n = c # cs"
    using String_nat_digits [of n] by (cases "String_nat n") auto
  then have c: "c \<noteq> CHR ''-''" "c \<noteq> CHR ''+''" "\<not> isspace c"
    using String_nat_digits [of n] by auto
  have "atol_digits 0 (c # cs) = int n"
    using String_nat_digits [of n] by (simp only: s)
  then have "atol_sign (c # cs) = int n"
    using c by (simp only: atol_sign.simps if_False)
  moreover have "max LONG_MIN (min LONG_MAX (int n)) = int n"
    using assms by (simp add: LONG_MAX_def LONG_MIN_def)
  ultimately show ?thesis using c by (simp add: atol_def s)
qed

lemma positive_long:
  assumes "0 < sint (S :: long)"
  shows "uint S = sint S" "unat S = nat (sint S)"
proof -
  have "sint S < 2 ^ 32" using sint_lt [of S] by simp
  then show u: "uint S = sint S" using assms uint_sint [of S]
    by (simp add: take_bit_int_eq_self)
  then show "unat S = nat (sint S)" by (simp add: unat_eq_nat_uint)
qed

lemma long_of_nat:
  assumes "n < 2 ^ 31"
  shows "sint (of_nat n :: long) = int n" "unat (of_nat n :: long) = n"
proof -
  have "signed_take_bit 31 (int n) = int n"
    using assms by (intro signed_take_bit_int_eq_self) simp_all
  then show "sint (of_nat n :: long) = int n"
    using sint_sbintrunc' [of "int n", where 'a = 32] by simp
  have "n < 2 ^ 32" using assms by simp
  then show "unat (of_nat n :: long) = n" by (simp add: unat_of_nat)
qed

lemma download_complete:
  assumes "hasArg req ''size''" and "toInt (arg req ''size'') = S" and "0 < sint S"
    and "cooperative client"
  shows "\<exists>r. handleDownload toInt req client = Some r \<and>
             code (head r) = 200 \<and> content_length r = S \<and>
             sent (final r) = content_length r \<and>
             concat (wire (final r)) = replicate (unat S) 0xAA \<and>
             list_all (\<lambda>chunk. length chunk \<le> 4096) (wire (final r))"
proof -
  have sz: "download_size toInt req = S" using assms(1,2) by (simp add: download_size_def)
  from send_loop_complete_wire [of client S] cooperative_progress [OF assms(4)]
  obtain st where "send_loop client S dl_init = Some st" "sent st = S"
    "concat (wire st) = replicate (unat S) 0xAA" "list_all (\<lambda>c. length c \<le> 4096) (wire st)"
    by blast
  then show ?thesis using sz by (simp add: handleDownload_def)
qed

subsection \<open>Claims about the download endpoint\<close>

text \<open>
  Claim C1, as amended. A download request whose size argument parses to a number \<open>S\<close> with
  \<open>0 < S < 2^31\<close>, the positive range of the \<open>long\<close> that the parse returns, served to a client
  that stays connected and takes every chunk whole, is answered with status 200 and declared
  content length \<open>S\<close>; the handler returns having written exactly \<open>S\<close> body bytes, in chunks
  of at most 4096 bytes, every byte being the fill value \<open>0xAA\<close>. This holds for whatever
  parser \<open>toInt\<close> is, with \<open>S\<close> the \<open>long\<close> it returns; and with the library's parser, for
  the size argument that is the decimal text of any \<open>n\<close> with \<open>0 < n < 2^31\<close>, the length
  declared and the number of bytes written are \<open>n\<close>.
\<close>

theorem download_sends_requested_size:
  "(hasArg req ''size'' \<and> toInt (arg req ''size'') = S \<and> 0 < sint S \<and> cooperative client \<longrightarrow>
      (\<exists>r. handleDownload toInt req client = Some r \<and>
           code (head r) = 200 \<and> uint (content_length r) = sint S \<and>
           sent (final r) = content_length r \<and>
           concat (wire (final r)) = replicate (nat (sint S)) 0xAA \<and>
           list_all (\<lambda>chunk. length chunk \<le> 4096) (wire (final r)))) \<and>
   (hasArg req ''size'' \<and> arg req ''size'' = String_nat n \<and> 0 < n \<and> n < 2 ^ 31 \<and>
    cooperative client \<longrightarrow>
      (\<exists>r. handleDownload atol req client = Some r \<and>
           code (head r) = 200 \<and> unat (content_length r) = n \<and>
           sent (final r) = content_length r \<and>
           concat (wire (final r)) = replicate n 0xAA \<and>
           list_all (\<lambda>chunk. length chunk \<le> 4096) (wire (final r))))"
proof (intro conjI impI)
  assume a: "hasArg req ''size'' \<and> toInt (arg req ''size'') = S \<and> 0 < sint S \<and> cooperative client"
  then have "\<exists>r. handleDownload toInt req client = Some r \<and>
             code (head r) = 200 \<and> content_length r = S \<and>
             sent (final r) = content_length r \<and>
             concat (wire (final r)) = replicate (unat S) 0xAA \<and>
             list_all (\<lambda>chunk. length chunk \<le> 4096) (wire (final r))"
    by (intro download_complete) simp_all
  then show "\<exists>r. handleDownload toInt req client = Some r \<and>
           code (head r) = 200 \<and> uint (content_length r) = sint S \<and>
           sent (final r) = content_length r \<and>
           concat (wire (final r)) = replicate (nat (sint S)) 0xAA \<and>
           list_all (\<lambda>chunk. length chunk \<le> 4096) (wire (final r))"
    using a positive_long [of S] by auto
next
  assume a: "hasArg req ''size'' \<and> arg req ''size'' = String_nat n \<and> 0 < n \<and> n < 2 ^ 31 \<and>
    cooperative client"
  then have n: "sint (of_nat n :: long) = int n" "unat (of_nat n :: long) = n"
    using long_of_nat [of n] by simp_all
  have "\<exists>r. handleDownload atol req client = Some r \<and>
             code (head r) = 200 \<and> content_length r = of_nat n \<and>
             sent (final r) = content_length r \<and>
             concat (wire (final r)) = replicate (unat (of_nat n :: long)) 0xAA \<and>
             list_all (\<lambda>chunk. length chunk \<le> 4096) (wire (final r))"
    using a n by (intro download_complete) (simp_all add: atol_String_nat)
  then show "\<exists>r. handleDownload atol req client = Some r \<and>
           code (head r) = 200 \<and> unat (content_length r) = n \<and>
           sent (final r) = content_length r \<and>
           concat (wire (final r)) = replicate n 0xAA \<and>
           list_all (\<lambda>chunk. length chunk \<le> 4096) (wire (final r))"
    using n by auto
qed

theorem download_sends_requested_size_witness:
  "(hasArg \<lparr>args = [(''size'', ''100'')]\<rparr> ''size'' \<and>
    atol (arg \<lparr>args = [(''size'', ''100'')]\<rparr> ''size'') = 100 \<and> 0 < sint (100 :: long) \<and>
    cooperative eager_client) \<and>
   (\<exists>r. handleDownload atol \<lparr>args = [(''size'', ''100'')]\<rparr> eager_client = Some r \<and>
        code (head r) = 200 \<and> uint (content_length r) = sint (100 :: long) \<and>
        sent (final r) = content_length r \<and>
        concat (wire (final r)) = replicate (nat (sint (100 :: long))) 0xAA \<and>
        list_all (\<lambda>chunk. length chunk \<le> 4096) (wire (final r))) \<and>
   (hasArg \<lparr>args = [(''size'', ''100'')]\<rparr> ''size'' \<and>
    arg \<lparr>args = [(''size'', ''100'')]\<rparr> ''size'' = String_nat 100 \<and>
    0 < (100 :: nat) \<and> (100 :: nat) < 2 ^ 31 \<and> cooperative eager_client) \<and>
   (\<exists>r. handleDownload atol \<lparr>args = [(''size'', ''100'')]\<rparr> eager_client = Some r \<and>
        code (head r) = 200 \<and> unat (content_length r) = 100 \<and>
        sent (final r) = content_length r \<and>
        concat (wire (final r)) = replicate 100 0xAA \<and>
        list_all (\<lambda>chunk. length chunk \<le> 4096) (wire (final r)))"
proof -
  have h1: "hasArg \<lparr>args = [(''size'', ''100'')]\<rparr> ''size''" by (simp add: hasArg_def)
  have h2: "atol (arg \<lparr>args = [(''size'', ''100'')]\<rparr> ''size'') = 100"
    by (simp add: arg_def atol_examples)
  have h3: "0 < sint (100 :: long)" by simp
  have h4: "cooperative eager_client" by (simp add: cooperative_def eager_client_def)
  have h5: "arg \<lparr>args = [(''size'', ''100'')]\<rparr> ''size'' = String_nat 100"
    by (simp add: arg_def String_nat.simps digit_char_def)
  have h6: "0 < (100 :: nat)" "(100 :: nat) < 2 ^ 31" by simp_all
  note t = download_sends_requested_size
             [of "\<lparr>args = [(''size'', ''100'')]\<rparr>" atol 100 eager_client 100]
  have p1: "hasArg \<lparr>args = [(''size'', ''100'')]\<rparr> ''size'' \<and>
    atol (arg \<lparr>args = [(''size'', ''100'')]\<rparr> ''size'') = 100 \<and> 0 < sint (100 :: long) \<and>
    cooperative eager_client"
    by (intro conjI h1 h2 h3 h4)
  have p2: "hasArg \<lparr>args = [(''size'', ''100'')]\<rparr> ''size'' \<and>
    arg \<lparr>args = [(''size'', ''100'')]\<rparr> ''size'' = String_nat 100 \<and>
    0 < (100 :: nat) \<and> (100 :: nat) < 2 ^ 31 \<and> cooperative eager_client"
    by (intro conjI h1 h5 h6 h4)
  show ?thesis
    by (intro conjI p1 p2 t [THEN conjunct1, THEN mp, OF p1] t [THEN conjunct2, THEN mp, OF p2])
qed

text \<open>
  The claim as stated, for every numeric size \<open>S > 0\<close>, fails beyond the range of the 32-bit
  \<open>long\<close> and \<open>size_t\<close>: for \<open>size=4294967396\<close>, which is \<open>2^32 + 100\<close>, the parse gives
  \<open>LONG_MAX\<close>, and the handler declares and sends 2147483647 bytes to a cooperative client.
  No 32-bit length can be 4294967396, whatever the parser returns.
\<close>

theorem download_size_beyond_long_counterexample:
  "hasArg \<lparr>args = [(''size'', ''4294967396'')]\<rparr> ''size'' \<and>
   arg \<lparr>args = [(''size'', ''4294967396'')]\<rparr> ''size'' = String_nat 4294967396 \<and>
   cooperative eager_client \<and>
   map_option content_length
     (handleDownload atol \<lparr>args = [(''size'', ''4294967396'')]\<rparr> eager_client) =
     Some 2147483647 \<and>
   map_option (bytes_sent \<circ> final)
     (handleDownload atol \<lparr>args = [(''size'', ''4294967396'')]\<rparr> eager_client) =
     Some 2147483647"
proof -
  have h1: "hasArg \<lparr>args = [(''size'', ''4294967396'')]\<rparr> ''size''" by (simp add: hasArg_def)
  have h2: "arg \<lparr>args = [(''size'', ''4294967396'')]\<rparr> ''size'' = String_nat 4294967396"
    by (simp add: arg_def String_nat.simps digit_char_def)
  have h3: "cooperative eager_client" by (simp add: cooperative_def eager_client_def)
  have sz: "download_size atol \<lparr>args = [(''size'', ''4294967396'')]\<rparr> = 2147483647"
    by (simp add: download_size_def hasArg_def arg_def atol_examples)
  from send_loop_complete_wire [of eager_client 2147483647] cooperative_progress [OF h3]
  obtain st where st: "send_loop eager_client 2147483647 dl_init = Some st"
    "concat (wire st) = replicate (unat (2147483647 :: size_t)) 0xAA"
    by blast
  have b: "bytes_sent st = 2147483647" by (simp add: bytes_sent_def st(2))
  have "handleDownload atol \<lparr>args = [(''size'', ''4294967396'')]\<rparr> eager_client =
     Some \<lparr>head = \<lparr>code = 200, content_type = ''application/octet-stream'', content = []\<rparr>,
           content_length = 2147483647, final = st\<rparr>"
    using handleDownload_Some [of eager_client atol "\<lparr>args = [(''size'', ''4294967396'')]\<rparr>" st]
      st(1) by (simp add: sz)
  then show ?thesis using h1 h2 h3 b by simp
qed

text \<open>
  Claim C2, as amended. A download request with no size argument, served to a client that
  stays connected and takes every chunk whole, is answered with status 200 and the default
  length 1048576, and exactly 1048576 fill bytes are written. A request whose size argument
  is present and parses to zero is answered with status 200 and declared length 0, and the
  handler returns at once with no body byte written: the default is not used, and no error
  response is sent.
\<close>

theorem download_default_size:
  "(\<not> hasArg req ''size'' \<and> cooperative client \<longrightarrow>
      (\<exists>r. handleDownload toInt req client = Some r \<and> code (head r) = 200 \<and>
           content_length r = 1048576 \<and> sent (final r) = 1048576 \<and>
           concat (wire (final r)) = replicate 1048576 0xAA)) \<and>
   (hasArg req ''size'' \<and> toInt (arg req ''size'') = 0 \<longrightarrow>
      handleDownload toInt req client =
        Some \<lparr>head = \<lparr>code = 200, content_type = ''application/octet-stream'', content = []\<rparr>,
              content_length = 0, final = dl_init\<rparr>)"
proof (intro conjI impI)
  assume a: "\<not> hasArg req ''size'' \<and> cooperative client"
  then have sz: "download_size toInt req = 1048576" by (simp add: download_size_def)
  from send_loop_complete_wire [of client 1048576] cooperative_progress [of client] a
  obtain st where "send_loop client 1048576 dl_init = Some st" "sent st = 1048576"
    "concat (wire st) = replicate (unat (1048576 :: size_t)) 0xAA" by blast
  then show "\<exists>r. handleDownload toInt req client = Some r \<and> code (head r) = 200 \<and>
           content_length r = 1048576 \<and> sent (final r) = 1048576 \<and>
           concat (wire (final r)) = replicate 1048576 0xAA"
    using sz by (simp add: handleDownload_def)
next
  assume a: "hasArg req ''size'' \<and> toInt (arg req ''size'') = 0"
  then have sz: "download_size toInt req = 0" by (simp add: download_size_def)
  show "handleDownload toInt req client =
        Some \<lparr>head = \<lparr>code = 200, content_type = ''application/octet-stream'', content = []\<rparr>,
              content_length = 0, final = dl_init\<rparr>"
    using handleDownload_Some [of client toInt req dl_init] sz send_loop_size_zero by simp
qed

theorem download_default_size_witness:
  "\<not> hasArg \<lparr>args = []\<rparr> ''size'' \<and> cooperative eager_client \<and>
   (\<exists>r. handleDownload atol \<lparr>args = []\<rparr> eager_client = Some r \<and> code (head r) = 200 \<and>
        content_length r = 1048576 \<and> sent (final r) = 1048576 \<and>
        concat (wire (final r)) = replicate 1048576 0xAA) \<and>
   hasArg \<lparr>args = [(''size'', ''abc'')]\<rparr> ''size'' \<and>
   atol (arg \<lparr>args = [(''size'', ''abc'')]\<rparr> ''size'') = 0 \<and>
   handleDownload atol \<lparr>args = [(''size'', ''abc'')]\<rparr> eager_client =
     Some \<lparr>head = \<lparr>code = 200, content_type = ''application/octet-stream'', content = []\<rparr>,
           content_length = 0, final = dl_init\<rparr>"
proof -
  have h1: "\<not> hasArg \<lparr>args = []\<rparr> ''size''" by (simp add: hasArg_def)
  have h2: "cooperative eager_client" by (simp add: cooperative_def eager_client_def)
  have h3: "hasArg \<lparr>args = [(''size'', ''abc'')]\<rparr> ''size''" by (simp add: hasArg_def)
  have h4: "atol (arg \<lparr>args = [(''size'', ''abc'')]\<rparr> ''size'') = 0"
    by (simp add: arg_def atol_examples)
  from download_default_size [of "\<lparr>args = []\<rparr>" eager_client atol]
    download_default_size [of "\<lparr>args = [(''size'', ''abc'')]\<rparr>" eager_client atol]
    h1 h2 h3 h4 show ?thesis by simp
qed

text \<open>
  The claim as stated fails: with \<open>size=abc\<close> the argument is present, parses to zero, and the
  handler declares length 0 and sends nothing rather than 1048576 bytes.
\<close>

theorem download_malformed_size_counterexample:
  "hasArg \<lparr>args = [(''size'', ''abc'')]\<rparr> ''size'' \<and> atol ''abc'' = 0 \<and>
   handleDownload atol \<lparr>args = [(''size'', ''abc'')]\<rparr> eager_client =
     Some \<lparr>head = \<lparr>code = 200, content_type = ''application/octet-stream'', content = []\<rparr>,
           content_length = 0, final = dl_init\<rparr> \<and>
   bytes_sent dl_init = 0"
proof -
  have "download_size atol \<lparr>args = [(''size'', ''abc'')]\<rparr> = 0"
    by (simp add: download_size_def hasArg_def arg_def atol_examples)
  then show ?thesis
    using handleDownload_Some [of eager_client atol "\<lparr>args = [(''size'', ''abc'')]\<rparr>" dl_init]
    by (simp add: send_loop_size_zero hasArg_def atol_examples bytes_sent_def dl_init_def)
qed

text \<open>
  Claim C6. Let \<open>st\<close> be any state the send loop reaches with bytes still to send. If the
  client is connected and the chunk write returns zero, the pass ends in the state that
  differs from \<open>st\<close> only by one more \<open>delay(1)\<close> and one more poll. Through any number \<open>k\<close>
  of such passes in a row the sent total and the bytes on the wire stay as they are, \<open>k\<close>
  delays are made, and on the pass after them, if the client is still connected, the
  handler calls the write again with the same chunk size, from the same buffer: what the
  client then takes is appended to the wire and added to the sent total. If the client is
  reported disconnected, the loop exits in \<open>st\<close>, with fewer body bytes written than
  declared, and the handler returns with the status 200 sent before the loop and nothing
  more.
\<close>

theorem download_backpressure_and_disconnect:
  assumes "st = loop_run client size' n dl_init" and "sent st < size'"
  shows "(connected (client (polls st)) \<and>
          client_write (client (polls st)) (toSend size' (sent st)) = 0 \<longrightarrow>
            loop_run client size' (Suc n) dl_init =
              st\<lparr>delays := Suc (delays st), polls := Suc (polls st)\<rparr>) \<and>
         ((\<forall>j<k. connected (client (polls st + j)) \<and>
                 client_write (client (polls st + j)) (toSend size' (sent st)) = 0) \<longrightarrow>
            loop_run client size' (n + k) dl_init =
              st\<lparr>delays := delays st + k, polls := polls st + k\<rparr> \<and>
            (connected (client (polls st + k)) \<and>
             0 < client_write (client (polls st + k)) (toSend size' (sent st)) \<longrightarrow>
               loop_run client size' (Suc (n + k)) dl_init =
                 st\<lparr>sent := sent st + client_write (client (polls st + k)) (toSend size' (sent st)),
                    wire := wire st @
                      [take (unat (client_write (client (polls st + k)) (toSend size' (sent st))))
                         buf],
                    delays := delays st + k,
                    polls := Suc (polls st + k)\<rparr>)) \<and>
         (\<not> connected (client (polls st)) \<longrightarrow>
            send_loop client size' dl_init = Some st \<and> bytes_sent st < unat size' \<and>
            (size' = download_size toInt req \<longrightarrow>
               handleDownload toInt req client =
                 Some \<lparr>head = \<lparr>code = 200, content_type = ''application/octet-stream'',
                              content = []\<rparr>,
                       content_length = size', final = st\<rparr>))"
proof (intro conjI impI)
  assume a: "connected (client (polls st)) \<and>
          client_write (client (polls st)) (toSend size' (sent st)) = 0"
  then have "loop_cond client size' st" using assms(2) by (simp add: loop_cond_def)
  then show "loop_run client size' (Suc n) dl_init =
              st\<lparr>delays := Suc (delays st), polls := Suc (polls st)\<rparr>"
    using a assms(1) loop_body_zero_write [of client st size']
    by (simp only: loop_run_Suc_end) simp
next
  assume z: "\<forall>j<k. connected (client (polls st + j)) \<and>
                 client_write (client (polls st + j)) (toSend size' (sent st)) = 0"
  have "loop_run client size' (n + k) dl_init = loop_run client size' k st"
    using assms(1) by (simp add: loop_run_add)
  then show after: "loop_run client size' (n + k) dl_init =
              st\<lparr>delays := delays st + k, polls := polls st + k\<rparr>"
    using loop_run_zero_writes [OF assms(2) z] by simp
  assume w: "connected (client (polls st + k)) \<and>
             0 < client_write (client (polls st + k)) (toSend size' (sent st))"
  let ?st' = "st\<lparr>delays := delays st + k, polls := polls st + k\<rparr>"
  have "loop_cond client size' ?st'" using w assms(2) by (simp add: loop_cond_def)
  then have "loop_run client size' (Suc (n + k)) dl_init = loop_body client size' ?st'"
    by (simp only: loop_run_Suc_end after) simp
  then show "loop_run client size' (Suc (n + k)) dl_init =
                 st\<lparr>sent := sent st + client_write (client (polls st + k)) (toSend size' (sent st)),
                    wire := wire st @
                      [take (unat (client_write (client (polls st + k)) (toSend size' (sent st))))
                         buf],
                    delays := delays st + k,
                    polls := Suc (polls st + k)\<rparr>"
    using w by (simp add: loop_body_def Let_def)
next
  assume a: "\<not> connected (client (polls st))"
  then have nc: "\<not> loop_cond client size' (loop_run client size' n dl_init)"
    using assms(1) by (simp add: loop_cond_def)
  from run_is_send_loop [OF nc] assms(1)
  show s: "send_loop client size' dl_init = Some st" by simp
  show "bytes_sent st < unat size'"
    using assms bytes_sent_run [of client size' n] by (simp add: word_less_nat_alt)
  assume "size' = download_size toInt req"
  with s show "handleDownload toInt req client =
                 Some \<lparr>head = \<lparr>code = 200, content_type = ''application/octet-stream'',
                              content = []\<rparr>,
                       content_length = size', final = st\<rparr>"
    using handleDownload_Some [of client toInt req st] by simp
qed

theorem download_backpressure_and_disconnect_witness:
  "loop_run retry_client 100 (Suc 0) dl_init = dl_init\<lparr>delays := Suc 0, polls := Suc 0\<rparr> \<and>
   loop_run retry_client 100 2 dl_init = dl_init\<lparr>delays := 2, polls := 2\<rparr> \<and>
   client_write (retry_client 2) (toSend 100 (sent dl_init)) = 40 \<and>
   loop_run retry_client 100 3 dl_init =
     \<lparr>sent = 40, wire = [replicate 40 0xAA], delays = 2, polls = 3\<rparr> \<and>
   send_loop retry_client 100 dl_init =
     Some \<lparr>sent = 40, wire = [replicate 40 0xAA], delays = 2, polls = 3\<rparr> \<and>
   bytes_sent \<lparr>sent = 40, wire = [replicate 40 0xAA], delays = 2, polls = 3\<rparr>
     < unat (100 :: size_t) \<and>
   handleDownload atol \<lparr>args = [(''size'', ''100'')]\<rparr> retry_client =
     Some \<lparr>head = \<lparr>code = 200, content_type = ''application/octet-stream'', content = []\<rparr>,
           content_length = 100,
           final = \<lparr>sent = 40, wire = [replicate 40 0xAA], delays = 2, polls = 3\<rparr>\<rparr>"
proof -
  let ?st3 = "\<lparr>sent = 40, wire = [replicate 40 0xAA], delays = 2, polls = 3\<rparr> :: dl_state"
  have i: "dl_init = loop_run retry_client 100 0 dl_init" "sent dl_init < (100 :: size_t)"
    by (simp_all add: dl_init_def)
  have z1: "connected (retry_client (polls dl_init)) \<and>
            client_write (retry_client (polls dl_init)) (toSend 100 (sent dl_init)) = 0"
    by (simp add: dl_init_def retry_client_def client_write_def)
  have z: "\<forall>j<2. connected (retry_client (polls dl_init + j)) \<and>
            client_write (retry_client (polls dl_init + j)) (toSend 100 (sent dl_init)) = 0"
    by (simp add: dl_init_def retry_client_def client_write_def)
  have w: "client_write (retry_client 2) (toSend 100 (sent dl_init)) = 40"
    by (simp add: dl_init_def retry_client_def client_write_def toSend_def)
  have c: "connected (retry_client (polls dl_init + 2)) \<and>
           0 < client_write (retry_client (polls dl_init + 2)) (toSend 100 (sent dl_init))"
    using w by (simp add: dl_init_def retry_client_def)
  note t = download_backpressure_and_disconnect
             [where st = dl_init and client = retry_client and size' = 100 and n = 0 and k = 2,
              OF i]
  have a1: "loop_run retry_client 100 (Suc 0) dl_init = dl_init\<lparr>delays := Suc 0, polls := Suc 0\<rparr>"
    using t [THEN conjunct1, THEN mp, OF z1] by (simp del: loop_run.simps add: dl_init_def)
  note t2 = t [THEN conjunct2, THEN conjunct1, THEN mp, OF z]
  have a2: "loop_run retry_client 100 2 dl_init = dl_init\<lparr>delays := 2, polls := 2\<rparr>"
    using t2 [THEN conjunct1] by (simp del: loop_run.simps add_2_eq_Suc add_2_eq_Suc' add: dl_init_def)
  have a3: "loop_run retry_client 100 3 dl_init = ?st3"
    using t2 [THEN conjunct2, THEN mp, OF c] w
    by (simp del: loop_run.simps add_2_eq_Suc add_2_eq_Suc' add: dl_init_def buf_def)
  have j: "?st3 = loop_run retry_client 100 3 dl_init" "sent ?st3 < (100 :: size_t)"
    by (simp_all add: a3)
  have d: "\<not> connected (retry_client (polls ?st3))" by (simp add: retry_client_def)
  note u = download_backpressure_and_disconnect
             [where st = ?st3 and client = retry_client and size' = 100 and n = 3 and k = 0
                and toInt = atol and req = "\<lparr>args = [(''size'', ''100'')]\<rparr>",
              OF j, THEN conjunct2, THEN conjunct2, THEN mp, OF d]
  have a4: "send_loop retry_client 100 dl_init = Some ?st3"
    "bytes_sent ?st3 < unat (100 :: size_t)"
    using u by simp_all
  have a5: "handleDownload atol \<lparr>args = [(''size'', ''100'')]\<rparr> retry_client =
     Some \<lparr>head = \<lparr>code = 200, content_type = ''application/octet-stream'', content = []\<rparr>,
           content_length = 100, final = ?st3\<rparr>"
    using u by (simp add: download_size_examples)
  show ?thesis by (intro conjI a1 a2 w a3 a4 a5)
qed

text \<open>
  Claim C7. From a state with bytes still to send, if from then on the client is always
  reported connected and takes zero bytes at every write, the loop never returns, and so
  neither does the handler for a request of non-zero size. If the client is always reported
  connected and, after every poll, some later write takes at least one byte, the loop
  returns with the whole declared total sent.
\<close>

theorem download_loop_has_no_timeout:
  "(sent st < size' \<and> stalled_from client (polls st) \<longrightarrow> send_loop client size' st = None) \<and>
   (download_size toInt req \<noteq> 0 \<and> stalled_from client 0 \<longrightarrow>
      handleDownload toInt req client = None) \<and>
   (sent st \<le> size' \<and> stays_connected client \<and> makes_progress client \<longrightarrow>
      (\<exists>st'. send_loop client size' st = Some st' \<and> sent st' = size')) \<and>
   (stays_connected client \<and> makes_progress client \<longrightarrow>
      (\<exists>r. handleDownload toInt req client = Some r \<and>
           content_length r = download_size toInt req \<and>
           sent (final r) = content_length r \<and>
           bytes_sent (final r) = unat (content_length r)))"
proof (intro conjI impI)
  assume "sent st < size' \<and> stalled_from client (polls st)"
  then show "send_loop client size' st = None"
    using send_loop_never_returns [of st size' client] by (simp add: stalled_from_def)
next
  assume a: "download_size toInt req \<noteq> 0 \<and> stalled_from client 0"
  then have "sent dl_init < download_size toInt req"
    by (simp add: dl_init_def word_greater_zero_iff)
  moreover have "\<forall>k\<ge>polls dl_init. connected (client k) \<and> accepts (client k) = 0"
    using a by (simp add: stalled_from_def)
  ultimately have "send_loop client (download_size toInt req) dl_init = None"
    by (rule send_loop_never_returns)
  then show "handleDownload toInt req client = None" by (rule handleDownload_None)
next
  assume "sent st \<le> size' \<and> stays_connected client \<and> makes_progress client"
  then show "\<exists>st'. send_loop client size' st = Some st' \<and> sent st' = size'"
    using send_loop_completes [of client st size']
    by (simp add: stays_connected_def makes_progress_def)
next
  assume a: "stays_connected client \<and> makes_progress client"
  from send_loop_complete_wire [of client "download_size toInt req"] a
  obtain st' where st': "send_loop client (download_size toInt req) dl_init = Some st'"
    "sent st' = download_size toInt req"
    "concat (wire st') = replicate (unat (download_size toInt req)) 0xAA"
    unfolding stays_connected_def makes_progress_def by blast
  then show "\<exists>r. handleDownload toInt req client = Some r \<and>
           content_length r = download_size toInt req \<and>
           sent (final r) = content_length r \<and>
           bytes_sent (final r) = unat (content_length r)"
    using handleDownload_Some [OF st'(1)] by (simp add: bytes_sent_def)
qed

theorem download_loop_has_no_timeout_witness:
  "stalled_from stalled_client 0 \<and>
   send_loop stalled_client 100 dl_init = None \<and>
   handleDownload atol \<lparr>args = [(''size'', ''100'')]\<rparr> stalled_client = None \<and>
   stays_connected slow_client \<and> makes_progress slow_client \<and>
   (\<exists>st'. send_loop slow_client 100 dl_init = Some st' \<and> sent st' = 100) \<and>
   (\<exists>r. handleDownload atol \<lparr>args = [(''size'', ''100'')]\<rparr> slow_client = Some r \<and>
        content_length r = 100 \<and> sent (final r) = content_length r \<and>
        bytes_sent (final r) = unat (content_length r))"
proof -
  have h1: "stalled_from stalled_client 0" by (simp add: stalled_from_def stalled_client_def)
  have h2: "stays_connected slow_client" by (simp add: stays_connected_def slow_client_def)
  note h3 = makes_progress_slow
  from download_loop_has_no_timeout
         [of dl_init 100 stalled_client atol "\<lparr>args = [(''size'', ''100'')]\<rparr>"]
       download_loop_has_no_timeout
         [of dl_init 100 slow_client atol "\<lparr>args = [(''size'', ''100'')]\<rparr>"]
       h1 h2 h3
  show ?thesis by (simp add: download_size_examples dl_init_def)
qed

text \<open>
  Claim C10. In every state the send loop goes through, for every client, the sent total is at
  most the declared size and equals the number of body bytes written; the next chunk size
  is the minimum of the bytes remaining and 4096, and every chunk written has at most 4096
  bytes. When the handler returns, the body bytes written are at most the declared content
  length.
\<close>

theorem download_sent_never_exceeds_size:
  "sent (loop_run client size' n dl_init) \<le> size' \<and>
   bytes_sent (loop_run client size' n dl_init) = unat (sent (loop_run client size' n dl_init)) \<and>
   unat (toSend size' (sent (loop_run client size' n dl_init))) =
     min (unat size' - unat (sent (loop_run client size' n dl_init))) 4096 \<and>
   list_all (\<lambda>chunk. length chunk \<le> 4096) (wire (loop_run client size' n dl_init)) \<and>
   (handleDownload toInt req client = Some r \<longrightarrow>
      sent (final r) \<le> content_length r \<and> bytes_sent (final r) \<le> unat (content_length r))"
proof -
  let ?st = "loop_run client size' n dl_init"
  have inv: "dl_inv size' ?st" using dl_inv_run [OF dl_inv_init] .
  then have le: "sent ?st \<le> size'" by (simp add: dl_inv_def)
  have ch: "list_all (\<lambda>chunk. length chunk \<le> 4096) (wire ?st)"
    using inv by (simp add: dl_inv_def list_all_iff)
  have fin: "sent (final r) \<le> content_length r \<and> bytes_sent (final r) \<le> unat (content_length r)"
    if h: "handleDownload toInt req client = Some r"
  proof -
    from h obtain st where st: "send_loop client (download_size toInt req) dl_init = Some st"
      and r: "final r = st" "content_length r = download_size toInt req"
      by (auto simp: handleDownload_def Let_def)
    have "dl_inv (download_size toInt req) st" using send_loop_inv [OF st dl_inv_init] .
    then show ?thesis using r by (simp add: dl_inv_def bytes_sent_def word_le_nat_alt)
  qed
  show ?thesis using le ch fin by (simp add: bytes_sent_run unat_toSend)
qed

theorem download_sent_never_exceeds_size_witness:
  "handleDownload atol \<lparr>args = [(''size'', ''10000'')]\<rparr> dropping_client =
     Some \<lparr>head = \<lparr>code = 200, content_type = ''application/octet-stream'', content = []\<rparr>,
           content_length = 10000,
           final = \<lparr>sent = 4096, wire = [replicate 4096 0xAA], delays = 0, polls = Suc 0\<rparr>\<rparr> \<and>
   (4096 :: size_t) \<le> 10000 \<and>
   bytes_sent \<lparr>sent = 4096, wire = [replicate 4096 0xAA], delays = 0, polls = Suc 0\<rparr>
     \<le> unat (10000 :: size_t)"
proof -
  let ?st = "\<lparr>sent = 4096, wire = [replicate 4096 0xAA], delays = 0, polls = Suc 0\<rparr>"
  have run: "loop_run dropping_client 10000 (Suc 0) dl_init = ?st"
    by (simp add: loop_cond_def loop_body_def dl_init_def dropping_client_def toSend_def
        client_write_def buf_def)
  have "\<not> loop_cond dropping_client 10000 (loop_run dropping_client 10000 (Suc 0) dl_init)"
    unfolding run by (simp add: loop_cond_def dropping_client_def)
  from run_is_send_loop [OF this]
  have "send_loop dropping_client 10000 dl_init = Some ?st" unfolding run .
  then have h: "handleDownload atol \<lparr>args = [(''size'', ''10000'')]\<rparr> dropping_client =
     Some \<lparr>head = \<lparr>code = 200, content_type = ''application/octet-stream'', content = []\<rparr>,
           content_length = 10000, final = ?st\<rparr>"
    using handleDownload_Some [of dropping_client atol "\<lparr>args = [(''size'', ''10000'')]\<rparr>" ?st]
    by (simp add: download_size_examples)
  from download_sent_never_exceeds_size
         [of dropping_client 10000 0 atol "\<lparr>args = [(''size'', ''10000'')]\<rparr>"
             "\<lparr>head = \<lparr>code = 200, content_type = ''application/octet-stream'', content = []\<rparr>,
           content_length = 10000, final = ?st\<rparr>"] h
  show ?thesis by simp
qed

subsection \<open>Claims about the event monitor, the status endpoint and the ping endpoint\<close>

text \<open>
  Claim C3, as amended. After any activities since process start, of which \<open>N\<close> are
  deliveries of a disconnect-meaning event (AP station disconnected, or own station
  disconnected), whatever other events and requests lie between them, the status endpoint
  answers 200 with the disconnect count \<open>N mod 2^32\<close>; this is exactly \<open>N\<close> for every
  \<open>N < 2^32\<close>.
\<close>

theorem status_reports_disconnect_count:
  "code (handleStatus p (lifetime acts)) = 200 \<and>
   content (handleStatus p (lifetime acts)) =
     status_fields p @ '',\"disconnects\":'' @
     String_nat (disconnect_events acts mod 2 ^ 32) @ ''}'' \<and>
   (disconnect_events acts < 2 ^ 32 \<longrightarrow>
      content (handleStatus p (lifetime acts)) =
        status_fields p @ '',\"disconnects\":'' @ String_nat (disconnect_events acts) @ ''}'')"
  by (simp add: handleStatus_content lifetime_count) (simp add: handleStatus_def Let_def)

theorem status_reports_disconnect_count_witness:
  "disconnect_events [Deliver ARDUINO_EVENT_WIFI_AP_STADISCONNECTED, HandleClient,
      Deliver (ARDUINO_EVENT_OTHER 3), Deliver ARDUINO_EVENT_WIFI_STA_DISCONNECTED] < 2 ^ 32 \<and>
   content (handleStatus sample_platform
     (lifetime [Deliver ARDUINO_EVENT_WIFI_AP_STADISCONNECTED, HandleClient,
        Deliver (ARDUINO_EVENT_OTHER 3), Deliver ARDUINO_EVENT_WIFI_STA_DISCONNECTED])) =
     status_fields sample_platform @ '',\"disconnects\":2}''"
proof -
  have n: "disconnect_events [Deliver ARDUINO_EVENT_WIFI_AP_STADISCONNECTED, HandleClient,
      Deliver (ARDUINO_EVENT_OTHER 3), Deliver ARDUINO_EVENT_WIFI_STA_DISCONNECTED] = 2"
    by (simp add: disconnect_events_def)
  have s: "String_nat 2 = ''2''" by (simp add: String_nat.simps digit_char_def)
  from status_reports_disconnect_count
         [of sample_platform "[Deliver ARDUINO_EVENT_WIFI_AP_STADISCONNECTED, HandleClient,
      Deliver (ARDUINO_EVENT_OTHER 3), Deliver ARDUINO_EVENT_WIFI_STA_DISCONNECTED]"]
  show ?thesis by (simp add: n s)
qed

text \<open>
  The claim as stated, for every \<open>N\<close>, fails at \<open>N = 2^32\<close>: the counter is a \<open>uint32_t\<close>
  and the status endpoint then reports 0.
\<close>

theorem status_disconnect_count_wraps_counterexample:
  "disconnect_events (replicate 4294967296 (Deliver ARDUINO_EVENT_WIFI_AP_STADISCONNECTED))
     = 4294967296 \<and>
   content (handleStatus sample_platform
     (lifetime (replicate 4294967296 (Deliver ARDUINO_EVENT_WIFI_AP_STADISCONNECTED)))) =
     status_fields sample_platform @ '',\"disconnects\":0}''"
proof -
  have "lifetime (replicate 4294967296 (Deliver ARDUINO_EVENT_WIFI_AP_STADISCONNECTED)) = 0"
    by (simp add: lifetime_eq disconnect_events_replicate)
  moreover have "String_nat 0 = ''0''" by (simp add: String_nat.simps digit_char_def)
  ultimately show ?thesis
    by (simp add: handleStatus_content disconnect_events_replicate)
qed

text \<open>
  Claim C4, as amended. A callback invocation leaves the counter greater than or equal to its
  value before, unless the counter stands at \<open>2^32 - 1\<close>: a disconnect-meaning event adds
  one, modulo \<open>2^32\<close>, every other event leaves it as it is, and so does every request
  handled. Over a process lifetime with fewer than \<open>2^32\<close> disconnect-meaning events the
  counter never decreases.
\<close>

theorem disconnect_count_monotone_until_wrap:
  "(c \<noteq> 0xFFFFFFFF \<longrightarrow> c \<le> process a c) \<and>
   (disconnect_meaning a \<longrightarrow> process a c = c + 1) \<and>
   (\<not> disconnect_meaning a \<longrightarrow> process a c = c) \<and>
   (disconnect_events (acts @ [a]) < 2 ^ 32 \<longrightarrow> lifetime acts \<le> lifetime (acts @ [a]))"
proof (intro conjI impI)
  assume "c \<noteq> 0xFFFFFFFF"
  then have "unat c \<noteq> unat (0xFFFFFFFF :: uint32_t)" by (simp only: word_unat_eq_iff not_False_eq_True)
  moreover have "unat c < 2 ^ 32" using unsigned_less [of c] by simp
  ultimately have "unat c + unat (1 :: uint32_t) < 2 ^ LENGTH(32)" by simp
  then have "unat (c + 1) = unat c + unat (1 :: uint32_t)" by (simp only: unat_add_lem)
  then have "c \<le> c + 1" by (simp add: word_le_nat_alt)
  then show "c \<le> process a c" by (simp add: process_cases)
next
  assume "disconnect_meaning a" then show "process a c = c + 1" by (simp add: process_cases)
next
  assume "\<not> disconnect_meaning a" then show "process a c = c" by (simp add: process_cases)
next
  assume b: "disconnect_events (acts @ [a]) < 2 ^ 32"
  have le: "disconnect_events acts \<le> disconnect_events (acts @ [a])"
    by (simp add: disconnect_events_def)
  then have "disconnect_events acts < 2 ^ 32" using b by simp
  then have "unat (lifetime acts) = disconnect_events acts"
    by (simp add: lifetime_count)
  moreover have "unat (lifetime (acts @ [a])) = disconnect_events (acts @ [a])"
    using b by (simp add: lifetime_count)
  ultimately show "lifetime acts \<le> lifetime (acts @ [a])"
    using le by (simp add: word_le_nat_alt)
qed

theorem disconnect_count_monotone_until_wrap_witness:
  "(5 :: uint32_t) \<noteq> 0xFFFFFFFF \<and>
   5 \<le> process (Deliver ARDUINO_EVENT_WIFI_STA_DISCONNECTED) 5 \<and>
   disconnect_meaning (Deliver ARDUINO_EVENT_WIFI_STA_DISCONNECTED) \<and>
   process (Deliver ARDUINO_EVENT_WIFI_STA_DISCONNECTED) 5 = 6 \<and>
   \<not> disconnect_meaning HandleClient \<and> process HandleClient 5 = 5 \<and>
   disconnect_events ([HandleClient] @ [Deliver ARDUINO_EVENT_WIFI_STA_DISCONNECTED]) < 2 ^ 32 \<and>
   lifetime [HandleClient] \<le> lifetime ([HandleClient] @ [Deliver ARDUINO_EVENT_WIFI_STA_DISCONNECTED])"
proof -
  have h: "disconnect_events ([HandleClient] @ [Deliver ARDUINO_EVENT_WIFI_STA_DISCONNECTED]) < 2 ^ 32"
    by (simp add: disconnect_events_def)
  from disconnect_count_monotone_until_wrap
         [of 5 "Deliver ARDUINO_EVENT_WIFI_STA_DISCONNECTED" "[HandleClient]"]
       disconnect_count_monotone_until_wrap [of 5 HandleClient "[]"] h
  show ?thesis by simp
qed

text \<open>
  The claim as stated, for every sequence of events, fails at the event number \<open>2^32\<close>: the
  counter goes from \<open>2^32 - 1\<close> to 0.
\<close>

theorem disconnect_count_wraps_counterexample:
  "lifetime (replicate 4294967295 (Deliver ARDUINO_EVENT_WIFI_AP_STADISCONNECTED)) = 0xFFFFFFFF \<and>
   lifetime (replicate 4294967295 (Deliver ARDUINO_EVENT_WIFI_AP_STADISCONNECTED) @
             [Deliver ARDUINO_EVENT_WIFI_AP_STADISCONNECTED]) = 0 \<and>
   \<not> lifetime (replicate 4294967295 (Deliver ARDUINO_EVENT_WIFI_AP_STADISCONNECTED))
       \<le> lifetime (replicate 4294967295 (Deliver ARDUINO_EVENT_WIFI_AP_STADISCONNECTED) @
             [Deliver ARDUINO_EVENT_WIFI_AP_STADISCONNECTED])"
proof -
  have a: "lifetime (replicate 4294967295 (Deliver ARDUINO_EVENT_WIFI_AP_STADISCONNECTED)) = 0xFFFFFFFF"
    by (simp add: lifetime_eq disconnect_events_replicate)
  have b: "lifetime (replicate 4294967295 (Deliver ARDUINO_EVENT_WIFI_AP_STADISCONNECTED) @
             [Deliver ARDUINO_EVENT_WIFI_AP_STADISCONNECTED]) = 0"
    unfolding lifetime_snoc a by (simp add: onWiFiEvent_def)
  show ?thesis unfolding b a by simp
qed

text \<open>
  Claim C8. The ping endpoint answers 200 with the tick count in decimal; of two calls, the
  later one, made when the tick count is no smaller, returns a value greater than or equal
  to the earlier one's.
\<close>

theorem ping_value_nondecreasing:
  assumes "ticks p \<le> ticks p'"
  shows "code (handlePing p) = 200 \<and>
         decimal_value (content (handlePing p)) = millis p \<and>
         decimal_value (content (handlePing p)) \<le> decimal_value (content (handlePing p'))"
  using assms by (simp add: handlePing_def decimal_value_String_nat millis_def)

theorem ping_value_nondecreasing_witness:
  "ticks sample_platform \<le> ticks (sample_platform\<lparr>ticks := 61507\<rparr>) \<and>
   decimal_value (content (handlePing sample_platform)) = 61500 \<and>
   decimal_value (content (handlePing sample_platform))
     \<le> decimal_value (content (handlePing (sample_platform\<lparr>ticks := 61507\<rparr>)))"
proof -
  have h: "ticks sample_platform \<le> ticks (sample_platform\<lparr>ticks := 61507\<rparr>)"
    by (simp add: sample_platform_def)
  from ping_value_nondecreasing [OF h] h show ?thesis
    by (simp add: millis_def sample_platform_def)
qed

subsection \<open>Claims about the scan endpoint and the station roster endpoint\<close>

text \<open>
  Claim C5. The scan endpoint answers 200 with the bracketed, comma-separated sequence of
  one object per network the scanner reports, in the scanner's order: the sequence has as
  many elements as the scanner's count, the element at each index is the object of that
  network's ssid, rssi, channel and auth, and a scan that reports zero networks gives the
  empty sequence \<open>[]\<close>, with status 200.
\<close>

theorem scan_serializes_every_network:
  "handleScan w =
     \<lparr>code = 200, content_type = ''application/json'', content = json_array (scan_elements w)\<rparr> \<and>
   length (scan_elements w) = nat (scanNetworks w) \<and>
   (0 \<le> i \<and> i < scanNetworks w \<longrightarrow>
      scan_elements w ! nat i =
        network_object (SSID w i) (RSSI w i) (channel w i)
          (translateEncryptionType (encryptionType w i))) \<and>
   (scanNetworks w = 0 \<longrightarrow>
      handleScan w = \<lparr>code = 200, content_type = ''application/json'', content = ''[]''\<rparr>)"
proof (intro conjI impI)
  show h: "handleScan w =
     \<lparr>code = 200, content_type = ''application/json'', content = json_array (scan_elements w)\<rparr>"
    by (simp add: handleScan_eq scan_elements_def)
  show "length (scan_elements w) = nat (scanNetworks w)"
    by (simp add: scan_elements_def)
  show "handleScan w = \<lparr>code = 200, content_type = ''application/json'', content = ''[]''\<rparr>"
    if "scanNetworks w = 0"
    using that by (simp add: h scan_elements_def json_array_def)
  show "scan_elements w ! nat i =
        network_object (SSID w i) (RSSI w i) (channel w i)
          (translateEncryptionType (encryptionType w i))"
    if "0 \<le> i \<and> i < scanNetworks w"
  proof -
    have "[0..scanNetworks w - 1] ! nat i = i" using that by (simp add: nth_upto)
    then show ?thesis using that by (simp add: scan_elements_def scanned_network_def)
  qed
qed

theorem scan_serializes_every_network_witness:
  "handleScan sample_scanner =
     \<lparr>code = 200, content_type = ''application/json'',
      content = ''[{\"ssid\":\"home\",\"rssi\":-42,\"channel\":6,\"auth\":\"WPA2_PSK\"},{\"ssid\":\"cafe\",\"rssi\":-77,\"channel\":11,\"auth\":\"Open\"}]''\<rparr> \<and>
   length (scan_elements sample_scanner) = 2 \<and>
   scan_elements sample_scanner ! nat 1 =
     ''{\"ssid\":\"cafe\",\"rssi\":-77,\"channel\":11,\"auth\":\"Open\"}'' \<and>
   scanNetworks empty_scanner = 0 \<and>
   handleScan empty_scanner = \<lparr>code = 200, content_type = ''application/json'', content = ''[]''\<rparr>"
proof -
  have u: "[0..1] = [0, 1 :: int]" by (simp add: upto_rec1)
  have e: "scan_elements sample_scanner =
     [''{\"ssid\":\"home\",\"rssi\":-42,\"channel\":6,\"auth\":\"WPA2_PSK\"}'',
      ''{\"ssid\":\"cafe\",\"rssi\":-77,\"channel\":11,\"auth\":\"Open\"}'']"
    by (simp add: scan_elements_def sample_scanner_def u scanned_network_def network_object_def
        String_int_examples)
  have z: "scanNetworks empty_scanner = 0" by (simp add: empty_scanner_def)
  from scan_serializes_every_network [of sample_scanner 1]
       scan_serializes_every_network [of empty_scanner 0] z
  show ?thesis
    by (simp add: e json_array_def)
qed

text \<open>
  Claim C9. For a roster whose count does not exceed its array, the clients endpoint answers
  200 with the bracketed, comma-separated sequence of one object per station, in the
  roster's order, each made of the station's address and signal strength; an empty roster
  gives \<open>[]\<close>. The address text has 17 characters: six pairs of upper-case hexadecimal
  digits, each spelling its octet, with a colon after each of the first five.
\<close>

theorem clients_serializes_roster:
  assumes "nat (num l) \<le> length (sta l)"
  shows "handleClients l =
           \<lparr>code = 200, content_type = ''application/json'',
            content = json_array (roster_elements l)\<rparr> \<and>
         length (roster_elements l) = nat (num l) \<and>
         (0 \<le> i \<and> i < num l \<longrightarrow>
            roster_elements l ! nat i =
              ''{\"mac\":\"'' @ sprintf_mac (mac (sta l ! nat i)) @ ''\",\"rssi\":'' @
              String_int (sint (rssi (sta l ! nat i))) @ ''}'') \<and>
         (num l = 0 \<longrightarrow>
            handleClients l =
              \<lparr>code = 200, content_type = ''application/json'', content = ''[]''\<rparr>) \<and>
         length (sprintf_mac (m0, m1, m2, m3, m4, m5)) = 17 \<and>
         mac_colons (sprintf_mac (m0, m1, m2, m3, m4, m5)) = '':::::'' \<and>
         mac_octets (sprintf_mac (m0, m1, m2, m3, m4, m5)) =
           [unat m0, unat m1, unat m2, unat m3, unat m4, unat m5] \<and>
         list_all is_hex_upper (hex2 b)"
proof (intro conjI impI)
  show h: "handleClients l =
           \<lparr>code = 200, content_type = ''application/json'',
            content = json_array (roster_elements l)\<rparr>"
    using assms by (simp add: handleClients_eq roster_elements_def)
  show "length (roster_elements l) = nat (num l)"
    using assms by (simp add: roster_elements_def)
  show "handleClients l = \<lparr>code = 200, content_type = ''application/json'', content = ''[]''\<rparr>"
    if "num l = 0"
    using that by (simp add: h roster_elements_def json_array_def)
  show "roster_elements l ! nat i =
              ''{\"mac\":\"'' @ sprintf_mac (mac (sta l ! nat i)) @ ''\",\"rssi\":'' @
              String_int (sint (rssi (sta l ! nat i))) @ ''}''"
    if "0 \<le> i \<and> i < num l"
    using that assms by (simp add: roster_elements_def station_object_def)
  show "list_all is_hex_upper (hex2 b)" by (rule hex2_upper)
qed (simp_all only: sprintf_mac_octets)

theorem clients_serializes_roster_witness:
  "nat (num sample_roster) \<le> length (sta sample_roster) \<and>
   handleClients sample_roster =
     \<lparr>code = 200, content_type = ''application/json'',
      content = ''[{\"mac\":\"24:6F:28:0A:BB:00\",\"rssi\":-55},{\"mac\":\"24:6F:28:0A:BB:00\",\"rssi\":-70}]''\<rparr> \<and>
   nat (num empty_roster) \<le> length (sta empty_roster) \<and> num empty_roster = 0 \<and>
   handleClients empty_roster =
     \<lparr>code = 200, content_type = ''application/json'', content = ''[]''\<rparr>"
proof -
  have h1: "nat (num sample_roster) \<le> length (sta sample_roster)"
    by (simp add: sample_roster_def)
  have h2: "nat (num empty_roster) \<le> length (sta empty_roster)"
    by (simp add: empty_roster_def)
  have z: "num empty_roster = 0" by (simp add: empty_roster_def)
  have e: "roster_elements sample_roster =
     [''{\"mac\":\"24:6F:28:0A:BB:00\",\"rssi\":-55}'', ''{\"mac\":\"24:6F:28:0A:BB:00\",\"rssi\":-70}'']"
    by (simp add: roster_elements_def sample_roster_def sample_station_def station_object_def
        hex2_def hex_digit_def String_int_examples)
  from clients_serializes_roster [OF h1, of 0] clients_serializes_roster [OF h2, of 0] h1 h2 z
  show ?thesis by (simp add: e json_array_def)
qed

end
